theory Spec2Isabelle
  imports Complex_Main "HOL-Library.Sublist"
begin

section \<open>The notebook \<open>tensorflow-various-readers.ipynb\<close>\<close>

text \<open>
  The notebook is a sequence of code cells. Cell 2 reads one environment variable and
  defines the global constants, cell 4 creates the TFRecord index file, cells 6 to 14
  define the pipeline classes, cell 16 defines \<open>get_batch_test_dali\<close> and cell 18 is the
  self-test loop. Everything the cells do to the outside (file system, external
  commands, standard output, pipeline constructions, session runs) is recorded as a
  list of events in program order; an exception is a value of type \<open>error\<close> returned
  beside the events that happened before it was raised.

  The external library and the training framework are not part of the notebook. What
  they return is a parameter of the model (\<open>extern\<close> below), and their calls are
  assumed to return. The two calls of cell 4 to the operating system can raise.
\<close>

subsection \<open>Errors and events\<close>

datatype assertion = Labels_integral | Labels_lower | Labels_upper

datatype error =
    KeyError string
  | FileExistsError string
  | FileNotFoundError string
  | PermissionError string
  | AssertionError assertion

datatype pipe_cls =
  MXNetReaderPipeline | CaffeReadPipeline | FileReadPipeline | TFRecordPipeline

text \<open>The arguments of one constructor call
  \<open>pipe_name(batch_size=.., num_threads=.., device_id=.., num_gpus=..)\<close>.\<close>

record ctor_call =
  c_cls :: pipe_cls
  c_batch_size :: int
  c_num_threads :: int
  c_device_id :: int
  c_num_gpus :: int

datatype event =
    Mkdir string
  | Call "string list"
  | Print string
  | Construct ctor_call
  | SessRun pipe_cls nat

subsection \<open>Cell 2: global constants\<close>

text \<open>
  \<open>os.path.join(a, *p)\<close> of the POSIX path module: a component that starts with the
  separator replaces what was joined so far; otherwise it is appended, with a
  separator in between unless the path so far is empty or already ends with one.
\<close>

fun path_join :: "string \<Rightarrow> string list \<Rightarrow> string" where
  "path_join path [] = path"
| "path_join path (b # bs) =
     path_join
       (if b \<noteq> [] \<and> hd b = CHR ''/'' then b
        else if path = [] \<or> last path = CHR ''/'' then path @ b
        else path @ ''/'' @ b) bs"

record globals =
  test_data_root :: string
  db_folder :: string
  lmdb_folder :: string
  image_dir :: string
  tfrecord :: string
  tfrecord_idx :: string
  tfrecord2idx_script :: string

text \<open>The numeric constants of cell 2 do not depend on the environment.\<close>

definition N :: int where "N = 8"
definition BATCH_SIZE :: int where "BATCH_SIZE = 128"
definition ITERATIONS :: int where "ITERATIONS = 32"
definition IMAGE_SIZE :: int where "IMAGE_SIZE = 3"

text \<open>\<open>os.environ[key]\<close> raises \<open>KeyError\<close> when the variable is unset.\<close>

definition environ_get :: "(string \<rightharpoonup> string) \<Rightarrow> string \<Rightarrow> error + string" where
  "environ_get environ key =
     (case environ key of None \<Rightarrow> Inl (KeyError key) | Some v \<Rightarrow> Inr v)"

definition cell2 :: "(string \<rightharpoonup> string) \<Rightarrow> error + globals" where
  "cell2 environ =
     (case environ_get environ ''DALI_EXTRA_PATH'' of
        Inl e \<Rightarrow> Inl e
      | Inr data_root \<Rightarrow>
          Inr \<lparr> test_data_root = data_root,
                db_folder = path_join data_root [''db'', ''recordio/''],
                lmdb_folder = path_join data_root [''db'', ''lmdb''],
                image_dir = ''../../data/images'',
                tfrecord = path_join data_root [''db'', ''tfrecord'', ''train''],
                tfrecord_idx = ''idx_files/train.idx'',
                tfrecord2idx_script = ''tfrecord2idx'' \<rparr>)"

subsection \<open>Cell 4: the index file\<close>

text \<open>
  The file system maps a path, as the notebook writes it, to what is at that name: a
  regular file, a directory or a symbolic link with its target. \<open>os.path.exists\<close> and
  \<open>os.path.isfile\<close> follow links, and a link whose target is missing (or a chain of
  more than 40 links, the limit of Linux) is neither; \<open>os.mkdir\<close> does not follow
  links. Targets are looked up as they are written; links in the directory part of a
  path are not modelled.
\<close>

datatype fs_node = File string | Dir | Symlink string

type_synonym fs = "string \<rightharpoonup> fs_node"

fun resolve :: "nat \<Rightarrow> fs \<Rightarrow> string \<Rightarrow> fs_node option" where
  "resolve 0 fs p = (case fs p of Some (Symlink q) \<Rightarrow> None | x \<Rightarrow> x)"
| "resolve (Suc n) fs p = (case fs p of Some (Symlink q) \<Rightarrow> resolve n fs q | x \<Rightarrow> x)"

definition os_path_exists :: "fs \<Rightarrow> string \<Rightarrow> bool" where
  "os_path_exists fs p = (resolve 40 fs p \<noteq> None)"

definition os_path_isfile :: "fs \<Rightarrow> string \<Rightarrow> bool" where
  "os_path_isfile fs p = (case resolve 40 fs p of Some (File _) \<Rightarrow> True | _ \<Rightarrow> False)"

text \<open>
  \<open>os.mkdir\<close> raises \<open>FileExistsError\<close> when the name is taken, by a dangling link
  too, where \<open>os.path.exists\<close> is false. Otherwise the operating system may still
  refuse to create the directory (no permission to write, a read-only file system);
  whether it does is the parameter \<open>refused\<close>, which gives the error raised.
\<close>

definition os_mkdir :: "(string \<Rightarrow> error option) \<Rightarrow> fs \<Rightarrow> string \<Rightarrow> error + fs" where
  "os_mkdir refused fs p =
     (if fs p \<noteq> None then Inl (FileExistsError p)
      else case refused p of Some e \<Rightarrow> Inl e | None \<Rightarrow> Inr (fs(p \<mapsto> Dir)))"

text \<open>
  \<open>subprocess.call\<close> raises when the program cannot be started (\<open>FileNotFoundError\<close>
  when it is not on the search path), before the command has run; otherwise it waits
  for the command and returns its exit status, which the cell ignores. The parameter
  \<open>run_command\<close> gives either that error or the file system the command leaves.

  An event records that the cell made the call, also when the call raises. Nothing in
  the cell catches an exception, so a call that raises ends the cell.
\<close>

definition cell4 ::
  "(string \<Rightarrow> error option) \<Rightarrow> (string list \<Rightarrow> fs \<Rightarrow> error + fs) \<Rightarrow> globals \<Rightarrow> fs \<Rightarrow>
   error option \<times> event list \<times> fs" where
  "cell4 refused run_command g fs =
     (case (if \<not> os_path_exists fs ''idx_files''
            then map_sum id (\<lambda>fs'. ([Mkdir ''idx_files''], fs')) (os_mkdir refused fs ''idx_files'')
            else Inr ([], fs)) of
        Inl e \<Rightarrow> (Some e, [Mkdir ''idx_files''], fs)
      | Inr (tr, fs1) \<Rightarrow>
          if \<not> os_path_isfile fs1 (tfrecord_idx g)
          then (let argv = [tfrecord2idx_script g, tfrecord g, tfrecord_idx g] in
                case run_command argv fs1 of
                  Inl e \<Rightarrow> (Some e, tr @ [Call argv], fs1)
                | Inr fs2 \<Rightarrow> (None, tr @ [Call argv], fs2))
          else (None, tr, fs1))"

subsection \<open>Cells 6 to 14: the pipeline classes\<close>

text \<open>
  An operator object of the external library is known to the notebook only by its
  constructor: the operator's name and the keyword options it was built with. Option
  values are Python literals, the library's type constants (\<open>types.RGB\<close>) and
  \<open>tfrec.FixedLenFeature(shape, dtype, default)\<close>.
\<close>

datatype arg =
    PyStr string
  | PyInt int
  | PyFloat real
  | PyBool bool
  | PyConst string
  | PyList "arg list"
  | PyTuple "arg list"
  | PyDict "(string \<times> arg) list"
  | FixedLenFeature arg arg arg

record operator =
  op_name :: string
  kwargs :: "(string \<times> arg) list"

text \<open>
  The class statements. \<open>class_base\<close> is the base written in the parentheses of the
  class statement, \<open>class_methods\<close> the \<open>def\<close>s in its body, in source order.
\<close>

datatype class_name = Pipeline | CommonPipeline | Reader pipe_cls

fun class_base :: "class_name \<Rightarrow> class_name option" where
  "class_base Pipeline = None"
| "class_base CommonPipeline = Some Pipeline"
| "class_base (Reader MXNetReaderPipeline) = Some CommonPipeline"
| "class_base (Reader CaffeReadPipeline) = Some CommonPipeline"
| "class_base (Reader FileReadPipeline) = Some CommonPipeline"
| "class_base (Reader TFRecordPipeline) = Some CommonPipeline"

text \<open>The classes whose class statement is in the notebook (\<open>Pipeline\<close> is imported).\<close>

definition notebook_classes :: "class_name list" where
  "notebook_classes =
     [CommonPipeline, Reader MXNetReaderPipeline, Reader CaffeReadPipeline,
      Reader FileReadPipeline, Reader TFRecordPipeline]"

fun class_methods :: "class_name \<Rightarrow> string list" where
  "class_methods CommonPipeline = [''__init__'', ''base_define_graph'']"
| "class_methods (Reader c) = [''__init__'', ''define_graph'']"
| "class_methods Pipeline = []"

text \<open>\<open>pipe_name[0].__name__\<close>\<close>

fun cls_name :: "pipe_cls \<Rightarrow> string" where
  "cls_name MXNetReaderPipeline = ''MXNetReaderPipeline''"
| "cls_name CaffeReadPipeline = ''CaffeReadPipeline''"
| "cls_name FileReadPipeline = ''FileReadPipeline''"
| "cls_name TFRecordPipeline = ''TFRecordPipeline''"

text \<open>
  Objects. The base class keeps its three constructor arguments, \<open>CommonPipeline\<close> adds
  five operators, a reader pipeline adds \<open>self.input\<close>.
\<close>

record pipeline_base =
  batch_size :: int
  num_threads :: int
  device_id :: int

record common_pipeline = pipeline_base +
  decode :: operator
  resize :: operator
  cmn :: operator
  uniform :: operator
  resize_rng :: operator

record reader_pipeline = common_pipeline +
  cls :: pipe_cls
  input :: operator

definition Pipeline_init :: "int \<Rightarrow> int \<Rightarrow> int \<Rightarrow> pipeline_base" where
  "Pipeline_init bs nt dev = \<lparr> batch_size = bs, num_threads = nt, device_id = dev \<rparr>"

definition CommonPipeline_init :: "int \<Rightarrow> int \<Rightarrow> int \<Rightarrow> common_pipeline" where
  "CommonPipeline_init bs nt dev =
     pipeline_base.extend (Pipeline_init bs nt dev)
       (common_pipeline.fields
          \<lparr> op_name = ''ImageDecoder'',
            kwargs = [(''device'', PyStr ''mixed''), (''output_type'', PyConst ''types.RGB'')] \<rparr>
          \<lparr> op_name = ''Resize'',
            kwargs = [(''device'', PyStr ''gpu''),
                      (''interp_type'', PyConst ''types.INTERP_LINEAR'')] \<rparr>
          \<lparr> op_name = ''CropMirrorNormalize'',
            kwargs = [(''device'', PyStr ''gpu''),
                      (''dtype'', PyConst ''types.FLOAT''),
                      (''crop'', PyTuple [PyInt 227, PyInt 227]),
                      (''mean'', PyList [PyFloat 128, PyFloat 128, PyFloat 128]),
                      (''std'', PyList [PyFloat 1, PyFloat 1, PyFloat 1])] \<rparr>
          \<lparr> op_name = ''Uniform'', kwargs = [(''range'', PyTuple [PyFloat 0, PyFloat 1])] \<rparr>
          \<lparr> op_name = ''Uniform'', kwargs = [(''range'', PyTuple [PyInt 256, PyInt 480])] \<rparr>)"

text \<open>
  The four \<open>__init__\<close> methods: each calls \<open>CommonPipeline.__init__\<close> with its first
  three arguments and then builds its reader. \<open>db_folder+"train.rec"\<close> is string
  concatenation.
\<close>

fun reader_init :: "globals \<Rightarrow> pipe_cls \<Rightarrow> int \<Rightarrow> int \<Rightarrow> operator" where
  "reader_init g MXNetReaderPipeline dev ngpus =
     \<lparr> op_name = ''MXNetReader'',
       kwargs = [(''path'', PyList [PyStr (db_folder g @ ''train.rec'')]),
                 (''index_path'', PyList [PyStr (db_folder g @ ''train.idx'')]),
                 (''random_shuffle'', PyBool True),
                 (''shard_id'', PyInt dev),
                 (''num_shards'', PyInt ngpus)] \<rparr>"
| "reader_init g CaffeReadPipeline dev ngpus =
     \<lparr> op_name = ''CaffeReader'',
       kwargs = [(''path'', PyStr (lmdb_folder g)),
                 (''random_shuffle'', PyBool True),
                 (''shard_id'', PyInt dev),
                 (''num_shards'', PyInt ngpus)] \<rparr>"
| "reader_init g FileReadPipeline dev ngpus =
     \<lparr> op_name = ''FileReader'', kwargs = [(''file_root'', PyStr (image_dir g))] \<rparr>"
| "reader_init g TFRecordPipeline dev ngpus =
     \<lparr> op_name = ''TFRecordReader'',
       kwargs = [(''path'', PyStr (tfrecord g)),
                 (''index_path'', PyStr (tfrecord_idx g)),
                 (''features'',
                  PyDict [(''image/encoded'',
                         FixedLenFeature (PyTuple []) (PyConst ''tfrec.string'') (PyStr '''')),
                        (''image/class/label'',
                         FixedLenFeature (PyList [PyInt 1]) (PyConst ''tfrec.int64'') (PyInt (- 1)))])] \<rparr>"

definition construct :: "globals \<Rightarrow> ctor_call \<Rightarrow> reader_pipeline" where
  "construct g c =
     common_pipeline.extend
       (CommonPipeline_init (c_batch_size c) (c_num_threads c) (c_device_id c))
       (reader_pipeline.fields (c_cls c)
          (reader_init g (c_cls c) (c_device_id c) (c_num_gpus c)))"

text \<open>
  The graph. Calling an operator object on data nodes gives data nodes: one
  (\<open>Single\<close>), a tuple that the source unpacks (\<open>Index\<close>), or a dictionary that the source
  indexes (\<open>Key\<close>). \<open>Apply op name inputs kw_inputs sel\<close> is the selected output of the
  call \<open>op(*inputs, name=name, **kw_inputs)\<close>; \<open>Gpu d\<close> is \<open>d.gpu()\<close>.
\<close>

datatype selector = Single | Index nat | Key string

datatype data_node =
    Apply operator "string option" "data_node list" "(string \<times> data_node) list" selector
  | Gpu data_node

definition base_define_graph ::
  "'a common_pipeline_scheme \<Rightarrow> data_node \<Rightarrow> data_node \<Rightarrow> data_node \<times> data_node" where
  "base_define_graph self inputs labels =
     (let images = Apply (decode self) None [inputs] [] Single;
          images = Apply (resize self) None [images]
                     [(''resize_shorter'', Apply (resize_rng self) None [] [] Single)] Single;
          output = Apply (cmn self) None [images]
                     [(''crop_pos_x'', Apply (uniform self) None [] [] Single),
                      (''crop_pos_y'', Apply (uniform self) None [] [] Single)] Single
      in (output, Gpu labels))"

definition define_graph :: "reader_pipeline \<Rightarrow> data_node \<times> data_node" where
  "define_graph self =
     (case cls self of
        MXNetReaderPipeline \<Rightarrow>
          base_define_graph self
            (Apply (input self) (Some ''Reader'') [] [] (Index 0))
            (Apply (input self) (Some ''Reader'') [] [] (Index 1))
      | CaffeReadPipeline \<Rightarrow>
          base_define_graph self
            (Apply (input self) None [] [] (Index 0))
            (Apply (input self) None [] [] (Index 1))
      | FileReadPipeline \<Rightarrow>
          base_define_graph self
            (Apply (input self) None [] [] (Index 0))
            (Apply (input self) None [] [] (Index 1))
      | TFRecordPipeline \<Rightarrow>
          base_define_graph self
            (Apply (input self) None [] [] (Key ''image/encoded''))
            (Apply (input self) None [] [] (Key ''image/class/label'')))"

text \<open>
  The operators a data node went through, oldest first: the chain of operator calls
  along the first positional input.
\<close>

fun op_chain :: "data_node \<Rightarrow> string list" where
  "op_chain (Gpu d) = op_chain d"
| "op_chain (Apply opr nm [] kw sel) = [op_name opr]"
| "op_chain (Apply opr nm (d # ds) kw sel) = op_chain d @ [op_name opr]"

subsection \<open>Cell 16: \<open>get_batch_test_dali\<close>\<close>

text \<open>\<open>range(n)\<close> and the decimal numeral that \<open>'%i' % d\<close> prints.\<close>

definition py_range :: "int \<Rightarrow> int list" where
  "py_range n = map int [0..<nat n]"

function str_nat :: "nat \<Rightarrow> string" where
  "str_nat n =
     (if n < 10 then [char_of (48 + n)]
      else str_nat (n div 10) @ [char_of (48 + n mod 10)])"
  by pat_completeness auto
termination
  by (relation "measure id") auto

definition format_i :: "int \<Rightarrow> string" where
  "format_i d = (if d < 0 then ''-'' @ str_nat (nat (- d)) else str_nat (nat d))"

datatype tf_dtype = tf_float32 | tf_int32 | tf_int64

text \<open>
  One call of the iterator adapter \<open>daliop(pipeline=.., shapes=.., dtypes=..,
  device_id=..)\<close> under \<open>tf.device(..)\<close>, and the tensors it returns: output 0 is the
  image, output 1 the label.
\<close>

record dali_call =
  dc_pipeline :: reader_pipeline
  dc_shapes :: arg
  dc_dtypes :: "tf_dtype list"
  dc_device_id :: int
  dc_tf_device :: string

datatype tensor = DaliOutput dali_call nat

type_synonym pipe_type = "pipe_cls \<times> tf_dtype \<times> (int \<times> int)"

text \<open>
  The constructor calls of the list comprehension
  \<open>[pipe_name(batch_size=batch_size, num_threads=2, device_id=device_id, num_gpus=N)
  for device_id in range(N)]\<close>.
\<close>

definition pipe_ctor_calls :: "int \<Rightarrow> pipe_type \<Rightarrow> ctor_call list" where
  "pipe_ctor_calls bs pipe_type =
     (case pipe_type of (pipe_name, label_type, _) \<Rightarrow>
        map (\<lambda>dev. \<lparr> c_cls = pipe_name, c_batch_size = bs, c_num_threads = 2,
                     c_device_id = dev, c_num_gpus = N \<rparr>) (py_range N))"

text \<open>
  \<open>pipes[d]\<close> is in range: \<open>pipes\<close> has one element for each \<open>device_id\<close> of
  \<open>range(N)\<close> and \<open>d\<close> runs over \<open>range(N)\<close> too. The function returns
  \<open>[images, labels]\<close>; the constructor calls it made are returned beside them as events.
\<close>

definition get_batch_test_dali ::
  "globals \<Rightarrow> int \<Rightarrow> pipe_type \<Rightarrow> event list \<times> (tensor list \<times> tensor list)" where
  "get_batch_test_dali g bs pipe_type =
     (case pipe_type of (pipe_name, label_type, _) \<Rightarrow>
        let calls = pipe_ctor_calls bs pipe_type;
            pipes = map (construct g) calls;
            outs = map (\<lambda>d.
                     let c = \<lparr> dc_pipeline = pipes ! nat d,
                               dc_shapes = PyList [PyTuple [PyInt BATCH_SIZE, PyInt 3,
                                                            PyInt 227, PyInt 227],
                                                   PyTuple []],
                               dc_dtypes = [tf_int32, label_type],
                               dc_device_id = d,
                               dc_tf_device = ''/gpu:'' @ format_i d \<rparr>
                     in (DaliOutput c 0, DaliOutput c 1)) (py_range N)
        in (map Construct calls, (map fst outs, map snd outs)))"

subsection \<open>Cell 18: the self-test loop\<close>

text \<open>
  What the session returns is external. \<open>sess.run\<close> returns one array for each fetched
  tensor, of the tensor's declared type: an integer array for \<open>tf.int32\<close> and
  \<open>tf.int64\<close>, a floating-point array for \<open>tf.float32\<close>. A floating-point value is the
  real number it denotes, an infinity or NaN. The element values are the parameters
  \<open>int_data\<close> and \<open>float_data\<close>, by tensor and by the number of the run in its session.
\<close>

datatype npfloat = Finite real | PosInf | NegInf | NaN

datatype ndarray = IntArray "int list" | FloatArray "npfloat list"

record extern =
  mkdir_refused :: "string \<Rightarrow> error option"
  run_command :: "string list \<Rightarrow> fs \<Rightarrow> error + fs"
  int_data :: "tensor \<Rightarrow> nat \<Rightarrow> int list"
  float_data :: "tensor \<Rightarrow> nat \<Rightarrow> npfloat list"

fun tensor_dtype :: "tensor \<Rightarrow> tf_dtype" where
  "tensor_dtype (DaliOutput c k) = dc_dtypes c ! k"

definition sess_run :: "extern \<Rightarrow> tensor list \<Rightarrow> nat \<Rightarrow> ndarray list" where
  "sess_run ext ts i =
     map (\<lambda>t. if tensor_dtype t = tf_float32 then FloatArray (float_data ext t i)
              else IntArray (int_data ext t i)) ts"

text \<open>
  The array operations of the three assertions. \<open>np.mod(x, 1)\<close> has the sign of the
  divisor: it is \<open>x - floor x\<close> for a finite \<open>x\<close> and NaN otherwise. (In floating point
  the subtraction may round; the result is zero exactly when \<open>x\<close> is an integer, which
  is all the assertion tests.) A comparison with NaN is false.
\<close>

fun fmod1 :: "npfloat \<Rightarrow> npfloat" where
  "fmod1 (Finite r) = Finite (r - of_int \<lfloor>r\<rfloor>)"
| "fmod1 PosInf = NaN"
| "fmod1 NegInf = NaN"
| "fmod1 NaN = NaN"

fun float_ge :: "npfloat \<Rightarrow> int \<Rightarrow> bool" where
  "float_ge (Finite r) k = (of_int k \<le> r)"
| "float_ge PosInf k = True"
| "float_ge NegInf k = False"
| "float_ge NaN k = False"

fun float_le :: "npfloat \<Rightarrow> int \<Rightarrow> bool" where
  "float_le (Finite r) k = (r \<le> of_int k)"
| "float_le PosInf k = False"
| "float_le NegInf k = True"
| "float_le NaN k = False"

fun np_mod1 :: "ndarray \<Rightarrow> ndarray" where
  "np_mod1 (IntArray xs) = IntArray (map (\<lambda>x. x mod 1) xs)"
| "np_mod1 (FloatArray xs) = FloatArray (map fmod1 xs)"

fun np_equal0 :: "ndarray \<Rightarrow> bool list" where
  "np_equal0 (IntArray xs) = map (\<lambda>x. x = 0) xs"
| "np_equal0 (FloatArray xs) = map (\<lambda>x. x = Finite 0) xs"

fun np_ge :: "ndarray \<Rightarrow> int \<Rightarrow> bool list" where
  "np_ge (IntArray xs) k = map (\<lambda>x. k \<le> x) xs"
| "np_ge (FloatArray xs) k = map (\<lambda>x. float_ge x k) xs"

fun np_le :: "ndarray \<Rightarrow> int \<Rightarrow> bool list" where
  "np_le (IntArray xs) k = map (\<lambda>x. x \<le> k) xs"
| "np_le (FloatArray xs) k = map (\<lambda>x. float_le x k) xs"

definition np_all :: "bool list \<Rightarrow> bool" where
  "np_all bs = list_all id bs"

text \<open>
  The body of \<open>for label in labels\<close>: three assertions, in source order. An
  \<open>assert\<close> whose condition is false raises \<open>AssertionError\<close> (the interpreter runs
  with assertions enabled, as a notebook kernel does).
\<close>

definition check_label :: "int \<times> int \<Rightarrow> ndarray \<Rightarrow> error option" where
  "check_label rng label =
     (if \<not> np_all (np_equal0 (np_mod1 label)) then Some (AssertionError Labels_integral)
      else if \<not> np_all (np_ge label (fst rng)) then Some (AssertionError Labels_lower)
      else if \<not> np_all (np_le label (snd rng)) then Some (AssertionError Labels_upper)
      else None)"

fun check_labels :: "int \<times> int \<Rightarrow> ndarray list \<Rightarrow> error option" where
  "check_labels rng [] = None"
| "check_labels rng (label # labels) =
     (case check_label rng label of
        Some e \<Rightarrow> Some e
      | None \<Rightarrow> check_labels rng labels)"

definition pipe_types :: "pipe_type list" where
  "pipe_types =
     [(MXNetReaderPipeline, tf_float32, (0, 999)),
      (CaffeReadPipeline, tf_int32, (0, 999)),
      (FileReadPipeline, tf_int32, (0, 1)),
      (TFRecordPipeline, tf_int64, (1, 1000))]"

text \<open>
  \<open>for i in range(ITERATIONS)\<close>, over the list of the remaining values of \<open>i\<close>. The
  images that \<open>sess.run\<close> returns are never read, so only the label tensors are passed.
\<close>

fun run_iterations ::
  "extern \<Rightarrow> pipe_type \<Rightarrow> tensor list \<Rightarrow> nat list \<Rightarrow> error option \<times> event list" where
  "run_iterations ext pipe_name label_tensors [] = (None, [])"
| "run_iterations ext pipe_name label_tensors (i # is) =
     (let labels = sess_run ext label_tensors i in
      case check_labels (snd (snd pipe_name)) labels of
        Some e \<Rightarrow> (Some e, [SessRun (fst pipe_name) i])
      | None \<Rightarrow>
          (case run_iterations ext pipe_name label_tensors is of
             (err, tr) \<Rightarrow> (err, SessRun (fst pipe_name) i # tr)))"

text \<open>
  \<open>for pipe_name in pipe_types\<close>. The placeholder \<open>x\<close>, the GPU options and the session
  configuration are built and not used by anything the loop checks or prints. Nothing
  in the cell catches an exception: one raised inside the \<open>with\<close> block leaves the block
  and the cell, so the \<open>OK\<close> line after the block is not reached.
\<close>

fun test_loop :: "globals \<Rightarrow> extern \<Rightarrow> pipe_type list \<Rightarrow> error option \<times> event list" where
  "test_loop g ext [] = (None, [])"
| "test_loop g ext (pipe_name # rest) =
     (case get_batch_test_dali g BATCH_SIZE pipe_name of
        (ctor_events, test_batch) \<Rightarrow>
          let pre = Print (''RUN: '' @ cls_name (fst pipe_name)) # ctor_events in
          (case run_iterations ext pipe_name (snd test_batch) [0..<nat ITERATIONS] of
             (Some e, tr) \<Rightarrow> (Some e, pre @ tr)
           | (None, tr) \<Rightarrow>
               (case test_loop g ext rest of
                  (err, tr') \<Rightarrow>
                    (err, pre @ tr @ Print (''OK : '' @ cls_name (fst pipe_name)) # tr'))))"

definition cell18 :: "globals \<Rightarrow> extern \<Rightarrow> error option \<times> event list" where
  "cell18 g ext = test_loop g ext pipe_types"

subsection \<open>The notebook, run from the top\<close>

text \<open>A cell that raises stops the run: the cells after it are not executed.\<close>

definition notebook ::
  "(string \<rightharpoonup> string) \<Rightarrow> extern \<Rightarrow> fs \<Rightarrow> error option \<times> event list \<times> fs" where
  "notebook environ ext fs =
     (case cell2 environ of
        Inl e \<Rightarrow> (Some e, [], fs)
      | Inr g \<Rightarrow>
          (case cell4 (mkdir_refused ext) (run_command ext) g fs of
             (Some e, tr, fs') \<Rightarrow> (Some e, tr, fs')
           | (None, tr, fs') \<Rightarrow>
               (case cell18 g ext of (err, tr') \<Rightarrow> (err, tr @ tr', fs'))))"

subsection \<open>Observations on a run\<close>

text \<open>
  The label arrays that the \<open>i\<close>-th \<open>sess.run(test_batch)\<close> of a pipeline type returns:
  one array for each of the label tensors that \<open>get_batch_test_dali\<close> built.
\<close>

definition returned_labels :: "globals \<Rightarrow> extern \<Rightarrow> pipe_type \<Rightarrow> nat \<Rightarrow> ndarray list" where
  "returned_labels g ext pipe_name i =
     sess_run ext (snd (snd (get_batch_test_dali g BATCH_SIZE pipe_name))) i"

text \<open>
  The specification's words for a valid label array: every label is integral (the label
  modulo 1 is 0) and lies in the closed range. This definition is written from the
  specification, not from the three assertions.
\<close>

fun labels_valid :: "int \<times> int \<Rightarrow> ndarray \<Rightarrow> bool" where
  "labels_valid (lo, hi) (IntArray xs) = list_all (\<lambda>x. x mod 1 = 0 \<and> lo \<le> x \<and> x \<le> hi) xs"
| "labels_valid (lo, hi) (FloatArray xs) =
     list_all (\<lambda>x. case x of
                     Finite r \<Rightarrow> r \<in> \<int> \<and> of_int lo \<le> r \<and> r \<le> of_int hi
                   | _ \<Rightarrow> False) xs"

text \<open>Observers of an event list: the session runs of one pipeline type, the printed lines.\<close>

fun runs_of :: "pipe_cls \<Rightarrow> event list \<Rightarrow> nat list" where
  "runs_of c [] = []"
| "runs_of c (SessRun c' i # tr) = (if c' = c then i # runs_of c tr else runs_of c tr)"
| "runs_of c (e # tr) = runs_of c tr"

fun prints_of :: "event list \<Rightarrow> string list" where
  "prints_of [] = []"
| "prints_of (Print s # tr) = s # prints_of tr"
| "prints_of (e # tr) = prints_of tr"

fun constructs_of :: "event list \<Rightarrow> ctor_call list" where
  "constructs_of [] = []"
| "constructs_of (Construct c # tr) = c # constructs_of tr"
| "constructs_of (e # tr) = constructs_of tr"

text \<open>
  The events of one pipeline type in the self-test loop, as the source orders them: the
  \<open>RUN\<close> line, the constructor calls of \<open>get_batch_test_dali\<close>, then the session runs
  \<open>0, .., k - 1\<close>; a complete segment ends with the \<open>OK\<close> line.
\<close>

definition run_segment :: "pipe_type \<Rightarrow> nat \<Rightarrow> event list" where
  "run_segment pipe_name k =
     Print (''RUN: '' @ cls_name (fst pipe_name)) #
     map Construct (pipe_ctor_calls BATCH_SIZE pipe_name) @
     map (SessRun (fst pipe_name)) [0..<k]"

definition full_segment :: "pipe_type \<Rightarrow> event list" where
  "full_segment pipe_name =
     run_segment pipe_name (nat ITERATIONS) @ [Print (''OK : '' @ cls_name (fst pipe_name))]"

subsection \<open>Example inputs\<close>

text \<open>
  An environment with the variable set, the globals cell 2 computes from it, and an
  external world in which the index script writes an empty index file and every label
  is 1 (which is in all four ranges).
\<close>

definition example_environ :: "string \<rightharpoonup> string" where
  "example_environ = [''DALI_EXTRA_PATH'' \<mapsto> ''/data'']"

definition example_globals :: globals where
  "example_globals =
     \<lparr> test_data_root = ''/data'',
       db_folder = ''/data/db/recordio/'',
       lmdb_folder = ''/data/db/lmdb'',
       image_dir = ''../../data/images'',
       tfrecord = ''/data/db/tfrecord/train'',
       tfrecord_idx = ''idx_files/train.idx'',
       tfrecord2idx_script = ''tfrecord2idx'' \<rparr>"

definition example_extern :: extern where
  "example_extern =
     \<lparr> mkdir_refused = (\<lambda>p. None),
       run_command = (\<lambda>argv fs. Inr (fs(''idx_files/train.idx'' \<mapsto> File []))),
       int_data = (\<lambda>t i. [1]),
       float_data = (\<lambda>t i. [Finite 1]) \<rparr>"

text \<open>
  An external world in which a check fails: every floating-point label is one half.
\<close>

definition nonintegral_extern :: extern where
  "nonintegral_extern =
     \<lparr> mkdir_refused = (\<lambda>p. None),
       run_command = (\<lambda>argv fs. Inr fs),
       int_data = (\<lambda>t i. [1]),
       float_data = (\<lambda>t i. [Finite (1 / 2)]) \<rparr>"

text \<open>
  Two worlds in which cell 4 raises: the operating system does not let the cell create
  a directory, or the index script is not on the search path. And a file system in
  which the name \<open>idx_files\<close> is a link to a directory that is gone.
\<close>

definition readonly_extern :: extern where
  "readonly_extern = example_extern \<lparr> mkdir_refused := (\<lambda>p. Some (PermissionError p)) \<rparr>"

definition no_script_extern :: extern where
  "no_script_extern =
     example_extern \<lparr> run_command := (\<lambda>argv fs. Inl (FileNotFoundError ''tfrecord2idx'')) \<rparr>"

definition dangling_fs :: fs where
  "dangling_fs = [''idx_files'' \<mapsto> Symlink ''/scratch/idx_files'']"

section \<open>Properties\<close>

subsection \<open>The setup cells\<close>

lemma cell2_unset:
  "environ ''DALI_EXTRA_PATH'' = None \<Longrightarrow> cell2 environ = Inl (KeyError ''DALI_EXTRA_PATH'')"
  by (simp add: cell2_def environ_get_def)

lemma cell2_set:
  "environ ''DALI_EXTRA_PATH'' = Some r \<Longrightarrow>
   cell2 environ =
     Inr \<lparr> test_data_root = r,
           db_folder = path_join r [''db'', ''recordio/''],
           lmdb_folder = path_join r [''db'', ''lmdb''],
           image_dir = ''../../data/images'',
           tfrecord = path_join r [''db'', ''tfrecord'', ''train''],
           tfrecord_idx = ''idx_files/train.idx'',
           tfrecord2idx_script = ''tfrecord2idx'' \<rparr>"
  by (simp add: cell2_def environ_get_def)

lemma cell2_same_variable:
  "environ' ''DALI_EXTRA_PATH'' = environ ''DALI_EXTRA_PATH'' \<Longrightarrow> cell2 environ' = cell2 environ"
  by (simp add: cell2_def environ_get_def)

lemma cell2_constants:
  "cell2 environ = Inr g \<Longrightarrow>
   tfrecord_idx g = ''idx_files/train.idx'' \<and> tfrecord2idx_script g = ''tfrecord2idx'' \<and>
   image_dir g = ''../../data/images''"
  by (auto simp: cell2_def split: sum.splits)

text \<open>
  Claim C8. With \<open>DALI_EXTRA_PATH\<close> unset the run of the notebook ends with
  \<open>KeyError\<close> and no event at all: no directory made, no command called, no pipeline
  constructed, the file system as it was. The run depends on the environment through
  this one variable only. When the variable is set, \<open>db_folder\<close>, \<open>lmdb_folder\<close> and
  \<open>tfrecord\<close> are its value with a separator (unless it ends with one or is empty)
  and a fixed relative path appended.
\<close>

theorem notebook_environment:
  "(environ ''DALI_EXTRA_PATH'' = None \<longrightarrow>
      notebook environ ext fs = (Some (KeyError ''DALI_EXTRA_PATH''), [], fs)) \<and>
   (\<forall>environ'. environ' ''DALI_EXTRA_PATH'' = environ ''DALI_EXTRA_PATH'' \<longrightarrow>
      notebook environ' ext fs = notebook environ ext fs) \<and>
   (\<forall>r. environ ''DALI_EXTRA_PATH'' = Some r \<longrightarrow>
      (\<exists>g. cell2 environ = Inr g \<and> test_data_root g = r \<and>
           (let d = (if r = [] \<or> last r = CHR ''/'' then r else r @ ''/'') in
            db_folder g = d @ ''db/recordio/'' \<and>
            lmdb_folder g = d @ ''db/lmdb'' \<and>
            tfrecord g = d @ ''db/tfrecord/train'')))"
proof (intro conjI allI impI)
  assume "environ ''DALI_EXTRA_PATH'' = None"
  then show "notebook environ ext fs = (Some (KeyError ''DALI_EXTRA_PATH''), [], fs)"
    by (simp add: notebook_def cell2_unset)
next
  fix environ' assume "environ' ''DALI_EXTRA_PATH'' = environ ''DALI_EXTRA_PATH''"
  then have "cell2 environ' = cell2 environ" by (rule cell2_same_variable)
  then show "notebook environ' ext fs = notebook environ ext fs"
    by (simp add: notebook_def)
next
  fix r assume "environ ''DALI_EXTRA_PATH'' = Some r"
  then show "\<exists>g. cell2 environ = Inr g \<and> test_data_root g = r \<and>
           (let d = (if r = [] \<or> last r = CHR ''/'' then r else r @ ''/'') in
            db_folder g = d @ ''db/recordio/'' \<and>
            lmdb_folder g = d @ ''db/lmdb'' \<and>
            tfrecord g = d @ ''db/tfrecord/train'')"
    by (simp add: cell2_set Let_def)
qed

theorem notebook_environment_witness:
  "notebook Map.empty example_extern Map.empty =
     (Some (KeyError ''DALI_EXTRA_PATH''), [], Map.empty) \<and>
   notebook (example_environ(''HOME'' \<mapsto> ''/root'')) example_extern Map.empty =
     notebook example_environ example_extern Map.empty \<and>
   cell2 example_environ = Inr example_globals"
proof -
  note a = notebook_environment [of Map.empty example_extern Map.empty]
  note b = notebook_environment [of example_environ example_extern Map.empty]
  have 1: "notebook Map.empty example_extern Map.empty =
             (Some (KeyError ''DALI_EXTRA_PATH''), [], Map.empty)"
    using a [THEN conjunct1] by simp
  have 2: "notebook (example_environ(''HOME'' \<mapsto> ''/root'')) example_extern Map.empty =
             notebook example_environ example_extern Map.empty"
    by (rule b [THEN conjunct2, THEN conjunct1, rule_format]) simp
  have "example_environ ''DALI_EXTRA_PATH'' = Some ''/data''"
    by (simp add: example_environ_def)
  from b [THEN conjunct2, THEN conjunct2, rule_format, OF this]
  obtain g where g: "cell2 example_environ = Inr g" "test_data_root g = ''/data''"
    "db_folder g = ''/data/db/recordio/''" "lmdb_folder g = ''/data/db/lmdb''"
    "tfrecord g = ''/data/db/tfrecord/train''"
    by (auto simp: Let_def)
  have 3: "g = example_globals"
    using g cell2_constants [OF g(1)] by (simp add: example_globals_def)
  from 1 2 3 g(1) show ?thesis by simp
qed

lemma resolve_new_dir:
  "fs q = None \<Longrightarrow>
   (case resolve n (fs(q \<mapsto> Dir)) p of Some (File c) \<Rightarrow> True | _ \<Rightarrow> False) =
   (case resolve n fs p of Some (File c) \<Rightarrow> True | _ \<Rightarrow> False)"
proof (induction n arbitrary: p)
  case 0
  show ?case
  proof (cases "p = q")
    case True
    with 0 show ?thesis by simp
  next
    case False
    then show ?thesis by (cases "fs p") simp_all
  qed
next
  case (Suc n)
  show ?case
  proof (cases "p = q")
    case True
    with Suc.prems show ?thesis by simp
  next
    case False
    show ?thesis
    proof (cases "fs p")
      case None
      with False show ?thesis by simp
    next
      case (Some x)
      show ?thesis
      proof (cases x)
        case (Symlink t)
        with Some False show ?thesis using Suc.IH [OF Suc.prems, of t] by simp
      qed (use Some False in simp_all)
    qed
  qed
qed

lemma isfile_new_dir: "fs q = None \<Longrightarrow> os_path_isfile (fs(q \<mapsto> Dir)) p = os_path_isfile fs p"
  unfolding os_path_isfile_def by (rule resolve_new_dir)

lemma os_mkdir_cases:
  "os_mkdir refused fs p = Inr fs1 \<Longrightarrow> fs p = None \<and> fs1 = fs(p \<mapsto> Dir)"
  by (auto simp: os_mkdir_def split: if_splits option.splits)

text \<open>
  In a file system where \<open>idx_files\<close> is a dangling link, the index file is absent
  and no command is called: \<open>os.path.exists\<close> is false, \<open>os.mkdir\<close> raises
  \<open>FileExistsError\<close> and the cell ends there.
\<close>

theorem cell4_dangling_counterexample:
  "\<not> os_path_isfile dangling_fs ''idx_files/train.idx'' \<and>
   cell4 (mkdir_refused example_extern) (run_command example_extern) example_globals dangling_fs =
     (Some (FileExistsError ''idx_files''), [Mkdir ''idx_files''], dangling_fs)"
  by (simp add: cell4_def os_mkdir_def os_path_exists_def os_path_isfile_def dangling_fs_def
        eval_nat_numeral)

text \<open>
  Claim C3, as the cell has it. The directory step comes first: when
  \<open>os.path.exists\<close> says \<open>idx_files\<close> is missing, \<open>os.mkdir\<close> is called, and if it
  raises, the cell ends with its error, with the file system as it was and no command
  called. When the directory step does not raise, the command is called exactly when
  \<open>idx_files/train.idx\<close> is not a regular file before the cell, and it is
  \<open>tfrecord2idx\<close> with the TFRecord path and the index path. When the index file is
  there, no command is called and the file is what it was (the whole file system, and
  no error, when \<open>idx_files\<close> exists too). When the command is called, the cell ends
  with the error of the call if it raises, and otherwise without error and with the
  file system that the command left.
\<close>

theorem cell4_index_file:
  assumes "cell2 environ = Inr g"
    and "cell4 refused run g fs = (err, tr, fs')"
  shows "(\<forall>argv. Call argv \<in> set tr \<longleftrightarrow>
            (os_path_exists fs ''idx_files'' \<or>
             (\<exists>fs1. os_mkdir refused fs ''idx_files'' = Inr fs1)) \<and>
            \<not> os_path_isfile fs ''idx_files/train.idx'' \<and>
            argv = [''tfrecord2idx'', tfrecord g, ''idx_files/train.idx'']) \<and>
         (\<forall>e. \<not> os_path_exists fs ''idx_files'' \<and> os_mkdir refused fs ''idx_files'' = Inl e \<longrightarrow>
            err = Some e \<and> fs' = fs \<and> tr = [Mkdir ''idx_files'']) \<and>
         (os_path_isfile fs ''idx_files/train.idx'' \<longrightarrow>
            (\<forall>argv. Call argv \<notin> set tr) \<and>
            fs' ''idx_files/train.idx'' = fs ''idx_files/train.idx'' \<and>
            (os_path_exists fs ''idx_files'' \<longrightarrow> err = None \<and> fs' = fs)) \<and>
         (\<forall>argv. Call argv \<in> set tr \<longrightarrow>
            (case run argv (if os_path_exists fs ''idx_files'' then fs
                            else fs(''idx_files'' \<mapsto> Dir)) of
               Inl e \<Rightarrow>
                 err = Some e \<and>
                 fs' = (if os_path_exists fs ''idx_files'' then fs else fs(''idx_files'' \<mapsto> Dir))
             | Inr fs2 \<Rightarrow> err = None \<and> fs' = fs2))"
proof -
  note c = cell2_constants [OF assms(1)]
  let ?argv = "[''tfrecord2idx'', tfrecord g, ''idx_files/train.idx'']"
  show ?thesis
  proof (cases "os_path_exists fs ''idx_files''")
    case True
    show ?thesis
    proof (cases "os_path_isfile fs ''idx_files/train.idx''")
      case f: True
      with True assms(2) c show ?thesis by (auto simp: cell4_def)
    next
      case f: False
      with True assms(2) c show ?thesis
        by (cases "run ?argv fs") (auto simp: cell4_def Let_def)
    qed
  next
    case False
    show ?thesis
    proof (cases "os_mkdir refused fs ''idx_files''")
      case (Inl e)
      with False assms(2) show ?thesis by (auto simp: cell4_def)
    next
      case (Inr fs1)
      from os_mkdir_cases [OF Inr] have n: "fs ''idx_files'' = None"
        and fs1: "fs1 = fs(''idx_files'' \<mapsto> Dir)" by simp_all
      have i: "os_path_isfile fs1 ''idx_files/train.idx'' = os_path_isfile fs ''idx_files/train.idx''"
        unfolding fs1 using n by (rule isfile_new_dir)
      show ?thesis
      proof (cases "os_path_isfile fs ''idx_files/train.idx''")
        case f: True
        with False Inr i fs1 assms(2) c show ?thesis by (auto simp: cell4_def)
      next
        case f: False
        with False Inr i fs1 assms(2) c show ?thesis
          by (cases "run ?argv fs1") (auto simp: cell4_def Let_def)
      qed
    qed
  qed
qed

theorem cell4_index_file_witness:
  "(\<forall>argv. Call argv \<notin>
      set (fst (snd (cell4 (mkdir_refused example_extern) (run_command example_extern)
             example_globals
             [''idx_files'' \<mapsto> Dir, ''idx_files/train.idx'' \<mapsto> File ''index''])))) \<and>
   snd (snd (cell4 (mkdir_refused example_extern) (run_command example_extern) example_globals
          [''idx_files'' \<mapsto> Dir, ''idx_files/train.idx'' \<mapsto> File ''index''])) =
     [''idx_files'' \<mapsto> Dir, ''idx_files/train.idx'' \<mapsto> File ''index''] \<and>
   Call [''tfrecord2idx'', ''/data/db/tfrecord/train'', ''idx_files/train.idx'']
     \<in> set (fst (snd (cell4 (mkdir_refused example_extern) (run_command example_extern)
                 example_globals Map.empty))) \<and>
   snd (snd (cell4 (mkdir_refused example_extern) (run_command example_extern)
               example_globals Map.empty)) =
     [''idx_files'' \<mapsto> Dir, ''idx_files/train.idx'' \<mapsto> File []] \<and>
   fst (cell4 (mkdir_refused readonly_extern) (run_command readonly_extern)
          example_globals Map.empty) = Some (PermissionError ''idx_files'') \<and>
   (\<forall>argv. Call argv \<notin>
      set (fst (snd (cell4 (mkdir_refused readonly_extern) (run_command readonly_extern)
             example_globals Map.empty)))) \<and>
   fst (cell4 (mkdir_refused no_script_extern) (run_command no_script_extern)
          example_globals Map.empty) = Some (FileNotFoundError ''tfrecord2idx'')"
proof -
  let ?fs = "[''idx_files'' \<mapsto> Dir, ''idx_files/train.idx'' \<mapsto> File ''index'']"
  let ?g = example_globals
  let ?argv = "[''tfrecord2idx'', ''/data/db/tfrecord/train'', ''idx_files/train.idx'']"
  have g: "cell2 example_environ = Inr ?g"
    using cell2_set [of example_environ "''/data''"]
    by (simp add: example_environ_def example_globals_def)
  have p: "\<And>ext fs. cell4 (mkdir_refused ext) (run_command ext) ?g fs =
             (fst (cell4 (mkdir_refused ext) (run_command ext) ?g fs),
              fst (snd (cell4 (mkdir_refused ext) (run_command ext) ?g fs)),
              snd (snd (cell4 (mkdir_refused ext) (run_command ext) ?g fs)))"
    by simp
  have a: "os_path_isfile ?fs ''idx_files/train.idx''" "os_path_exists ?fs ''idx_files''"
    by (simp_all add: os_path_isfile_def os_path_exists_def eval_nat_numeral)
  have b: "\<not> os_path_isfile Map.empty ''idx_files/train.idx''"
    "\<not> os_path_exists Map.empty ''idx_files''"
    by (simp_all add: os_path_isfile_def os_path_exists_def eval_nat_numeral)
  have t: "tfrecord ?g = ''/data/db/tfrecord/train''"
    by (simp add: example_globals_def)
  have m: "os_mkdir (mkdir_refused example_extern) Map.empty ''idx_files'' =
             Inr [''idx_files'' \<mapsto> Dir]"
    "os_mkdir (mkdir_refused no_script_extern) Map.empty ''idx_files'' =
             Inr [''idx_files'' \<mapsto> Dir]"
    "os_mkdir (mkdir_refused readonly_extern) Map.empty ''idx_files'' =
             Inl (PermissionError ''idx_files'')"
    by (simp_all add: os_mkdir_def example_extern_def no_script_extern_def readonly_extern_def)
  note present = cell4_index_file [OF g p [of example_extern ?fs]]
  note absent = cell4_index_file [OF g p [of example_extern Map.empty]]
  note readonly = cell4_index_file [OF g p [of readonly_extern Map.empty]]
  note no_script = cell4_index_file [OF g p [of no_script_extern Map.empty]]
  have 1: "\<forall>argv. Call argv \<notin>
      set (fst (snd (cell4 (mkdir_refused example_extern) (run_command example_extern) ?g ?fs)))"
    using present a by blast
  have 2: "snd (snd (cell4 (mkdir_refused example_extern) (run_command example_extern) ?g ?fs)) = ?fs"
    using present a by blast
  have 3: "Call ?argv \<in> set (fst (snd (cell4 (mkdir_refused example_extern)
                 (run_command example_extern) ?g Map.empty)))"
    using absent [THEN conjunct1, rule_format, of ?argv] b m t by simp
  have 4: "snd (snd (cell4 (mkdir_refused example_extern) (run_command example_extern)
               ?g Map.empty)) = [''idx_files'' \<mapsto> Dir, ''idx_files/train.idx'' \<mapsto> File []]"
    using absent [THEN conjunct2, THEN conjunct2, THEN conjunct2, rule_format, OF 3] b
    by (simp add: example_extern_def)
  have 5: "fst (cell4 (mkdir_refused readonly_extern) (run_command readonly_extern)
          ?g Map.empty) = Some (PermissionError ''idx_files'')"
    using readonly [THEN conjunct2, THEN conjunct1, rule_format,
        of "PermissionError ''idx_files''"] b m by simp
  have 6: "\<forall>argv. Call argv \<notin>
      set (fst (snd (cell4 (mkdir_refused readonly_extern) (run_command readonly_extern)
             ?g Map.empty)))"
    using readonly [THEN conjunct1] b m by simp
  have "Call ?argv \<in> set (fst (snd (cell4 (mkdir_refused no_script_extern)
                 (run_command no_script_extern) ?g Map.empty)))"
    using no_script [THEN conjunct1, rule_format, of ?argv] b m t by simp
  from no_script [THEN conjunct2, THEN conjunct2, THEN conjunct2, rule_format, OF this] b
  have 7: "fst (cell4 (mkdir_refused no_script_extern) (run_command no_script_extern)
          ?g Map.empty) = Some (FileNotFoundError ''tfrecord2idx'')"
    by (simp add: no_script_extern_def example_extern_def)
  from 1 2 3 4 5 6 7 show ?thesis by blast
qed

subsection \<open>The pipeline classes\<close>

lemma input_construct:
  "input (construct g c) = reader_init g (c_cls c) (c_device_id c) (c_num_gpus c)"
  by (simp add: construct_def common_pipeline.extend_def reader_pipeline.fields_def)

lemma cls_construct: "cls (construct g c) = c_cls c"
  by (simp add: construct_def common_pipeline.extend_def reader_pipeline.fields_def)

lemma common_construct:
  "op_name (decode (construct g c)) = ''ImageDecoder''"
  "op_name (resize (construct g c)) = ''Resize''"
  "op_name (cmn (construct g c)) = ''CropMirrorNormalize''"
  "device_id (construct g c) = c_device_id c"
  "batch_size (construct g c) = c_batch_size c"
  "num_threads (construct g c) = c_num_threads c"
  by (simp_all add: construct_def common_pipeline.extend_def reader_pipeline.fields_def
        CommonPipeline_init_def pipeline_base.extend_def common_pipeline.fields_def
        Pipeline_init_def)

text \<open>
  Claim C4. For every pipeline that a constructor call builds, \<open>define_graph\<close>
  returns a pair. Its first element is the crop/normalize operator applied to the
  resize operator applied to the image decoder applied to the image output of the
  pipeline's own reader: the first element of the pair that the reader call returns
  (the entry \<open>image/encoded\<close> of the dictionary for the TFRecord reader). So this
  element went through the reader, \<open>ImageDecoder\<close>, \<open>Resize\<close> and
  \<open>CropMirrorNormalize\<close>, in this order. Its second element is the label output of the
  same reader call (the second element of the pair, the entry \<open>image/class/label\<close>
  for the TFRecord reader) moved to the GPU, and went through no other operator.
\<close>

theorem define_graph_chain:
  "define_graph (construct g c) =
     (Apply (cmn (construct g c)) None
        [Apply (resize (construct g c)) None
           [Apply (decode (construct g c)) None
              [Apply (input (construct g c))
                 (if c_cls c = MXNetReaderPipeline then Some ''Reader'' else None) [] []
                 (if c_cls c = TFRecordPipeline then Key ''image/encoded'' else Index 0)]
              [] Single]
           [(''resize_shorter'', Apply (resize_rng (construct g c)) None [] [] Single)]
           Single]
        [(''crop_pos_x'', Apply (uniform (construct g c)) None [] [] Single),
         (''crop_pos_y'', Apply (uniform (construct g c)) None [] [] Single)] Single,
      Gpu (Apply (input (construct g c))
             (if c_cls c = MXNetReaderPipeline then Some ''Reader'' else None) [] []
             (if c_cls c = TFRecordPipeline then Key ''image/class/label'' else Index 1))) \<and>
   input (construct g c) = reader_init g (c_cls c) (c_device_id c) (c_num_gpus c) \<and>
   op_name (decode (construct g c)) = ''ImageDecoder'' \<and>
   op_name (resize (construct g c)) = ''Resize'' \<and>
   op_name (cmn (construct g c)) = ''CropMirrorNormalize'' \<and>
   op_chain (fst (define_graph (construct g c))) =
     [op_name (input (construct g c)), ''ImageDecoder'', ''Resize'', ''CropMirrorNormalize''] \<and>
   op_chain (snd (define_graph (construct g c))) = [op_name (input (construct g c))]"
  by (cases "c_cls c")
     (simp_all add: define_graph_def base_define_graph_def cls_construct common_construct
        input_construct Let_def)

text \<open>
  Claim C9. The reader of a \<open>FileReadPipeline\<close> is the same operator whatever the
  constructor arguments are: \<open>FileReader\<close> with the single option \<open>file_root\<close>, the
  image directory. It has no \<open>shard_id\<close>, \<open>num_shards\<close> or \<open>random_shuffle\<close> option,
  where the MXNet and Caffe readers have \<open>shard_id = device_id\<close>,
  \<open>num_shards = num_gpus\<close> and \<open>random_shuffle = True\<close>. So all the pipelines that
  \<open>get_batch_test_dali\<close> constructs for \<open>FileReadPipeline\<close> have this one reader.
\<close>

theorem FileReadPipeline_reader_independent:
  assumes "c_cls c1 = FileReadPipeline" and "c_cls c2 = FileReadPipeline"
  shows "input (construct g c1) = input (construct g c2) \<and>
         input (construct g c1) =
           \<lparr> op_name = ''FileReader'', kwargs = [(''file_root'', PyStr (image_dir g))] \<rparr> \<and>
         map_of (kwargs (input (construct g c1))) ''shard_id'' = None \<and>
         map_of (kwargs (input (construct g c1))) ''num_shards'' = None \<and>
         map_of (kwargs (input (construct g c1))) ''random_shuffle'' = None \<and>
         (\<forall>c. c_cls c = MXNetReaderPipeline \<or> c_cls c = CaffeReadPipeline \<longrightarrow>
            map_of (kwargs (input (construct g c))) ''shard_id'' = Some (PyInt (c_device_id c)) \<and>
            map_of (kwargs (input (construct g c))) ''num_shards'' = Some (PyInt (c_num_gpus c)) \<and>
            map_of (kwargs (input (construct g c))) ''random_shuffle'' = Some (PyBool True)) \<and>
         (\<forall>bs lt rng.
            \<forall>p \<in> set (map (construct g) (pipe_ctor_calls bs (FileReadPipeline, lt, rng))).
              input p = input (construct g c1))"
  using assms by (auto simp: input_construct pipe_ctor_calls_def)

theorem FileReadPipeline_reader_independent_witness:
  "input (construct example_globals
            \<lparr> c_cls = FileReadPipeline, c_batch_size = 128, c_num_threads = 2,
              c_device_id = 0, c_num_gpus = 8 \<rparr>) =
   input (construct example_globals
            \<lparr> c_cls = FileReadPipeline, c_batch_size = 128, c_num_threads = 2,
              c_device_id = 7, c_num_gpus = 8 \<rparr>) \<and>
   map_of (kwargs (input (construct example_globals \<lparr> c_cls = MXNetReaderPipeline, c_batch_size = 128,
                         c_num_threads = 2, c_device_id = 7, c_num_gpus = 8 \<rparr>))) ''shard_id'' =
     Some (PyInt 7)"
  using FileReadPipeline_reader_independent
     [of "\<lparr> c_cls = FileReadPipeline, c_batch_size = 128, c_num_threads = 2,
            c_device_id = 0, c_num_gpus = 8 \<rparr>"
         "\<lparr> c_cls = FileReadPipeline, c_batch_size = 128, c_num_threads = 2,
            c_device_id = 7, c_num_gpus = 8 \<rparr>" example_globals]
  by simp

subsection \<open>The class statements\<close>

text \<open>
  The reader classes are not direct subclasses of the imported base class: the class
  statement of \<open>MXNetReaderPipeline\<close> names \<open>CommonPipeline\<close> as its base.
\<close>

theorem reader_class_base_counterexample:
  "Reader MXNetReaderPipeline \<in> set notebook_classes \<and>
   class_base (Reader MXNetReaderPipeline) \<noteq> Some Pipeline"
  by (simp add: notebook_classes_def)

text \<open>
  Claim C2, as the class statements have it. \<open>CommonPipeline\<close> is the one class of
  the notebook whose base is the imported \<open>Pipeline\<close>; each of the four reader classes
  has \<open>CommonPipeline\<close> as its base and defines exactly the two methods \<open>__init__\<close>
  and \<open>define_graph\<close>, while \<open>CommonPipeline\<close> defines \<open>__init__\<close> and the shared
  helper \<open>base_define_graph\<close>. What \<open>define_graph\<close> returns is a call of that helper.
  The reader that \<open>__init__\<close> builds has, for one class, always the same operator
  name and the same options apart from \<open>shard_id\<close> and \<open>num_shards\<close>; these two are
  absent from the file and TFRecord readers and are the constructor's \<open>device_id\<close> and
  \<open>num_gpus\<close> in the MXNet and Caffe readers.
\<close>

theorem pipeline_class_structure:
  "class_base CommonPipeline = Some Pipeline \<and>
   (\<forall>k\<in>set notebook_classes. (class_base k = Some Pipeline) = (k = CommonPipeline)) \<and>
   (\<forall>r. Reader r \<in> set notebook_classes \<and>
        class_base (Reader r) = Some CommonPipeline \<and>
        class_methods (Reader r) = [''__init__'', ''define_graph'']) \<and>
   class_methods CommonPipeline = [''__init__'', ''base_define_graph''] \<and>
   (\<exists>images labels.
      define_graph (construct g c) = base_define_graph (construct g c) images labels) \<and>
   (c_cls c = c_cls c' \<longrightarrow>
      op_name (input (construct g c)) = op_name (input (construct g c')) \<and>
      filter (\<lambda>(k, v). k \<noteq> ''shard_id'' \<and> k \<noteq> ''num_shards'') (kwargs (input (construct g c))) =
      filter (\<lambda>(k, v). k \<noteq> ''shard_id'' \<and> k \<noteq> ''num_shards'') (kwargs (input (construct g c')))) \<and>
   (c_cls c = FileReadPipeline \<or> c_cls c = TFRecordPipeline \<longrightarrow>
      map_of (kwargs (input (construct g c))) ''shard_id'' = None \<and>
      map_of (kwargs (input (construct g c))) ''num_shards'' = None) \<and>
   (c_cls c = MXNetReaderPipeline \<or> c_cls c = CaffeReadPipeline \<longrightarrow>
      map_of (kwargs (input (construct g c))) ''shard_id'' = Some (PyInt (c_device_id c)) \<and>
      map_of (kwargs (input (construct g c))) ''num_shards'' = Some (PyInt (c_num_gpus c)))"
proof (intro conjI ballI allI impI)
  show "class_base CommonPipeline = Some Pipeline" by simp
  show "class_methods CommonPipeline = [''__init__'', ''base_define_graph'']" by simp
  show "\<exists>images labels.
      define_graph (construct g c) = base_define_graph (construct g c) images labels"
    by (cases "c_cls c") (auto simp: define_graph_def cls_construct)
next
  fix k assume "k \<in> set notebook_classes"
  then show "(class_base k = Some Pipeline) = (k = CommonPipeline)"
    by (auto simp: notebook_classes_def)
next
  fix r
  show "Reader r \<in> set notebook_classes" by (cases r) (simp_all add: notebook_classes_def)
  show "class_base (Reader r) = Some CommonPipeline" by (cases r) simp_all
  show "class_methods (Reader r) = [''__init__'', ''define_graph'']" by simp
next
  assume e: "c_cls c = c_cls c'"
  show "op_name (input (construct g c)) = op_name (input (construct g c'))"
    using e by (cases "c_cls c'") (simp_all add: input_construct)
  show "filter (\<lambda>(k, v). k \<noteq> ''shard_id'' \<and> k \<noteq> ''num_shards'') (kwargs (input (construct g c))) =
      filter (\<lambda>(k, v). k \<noteq> ''shard_id'' \<and> k \<noteq> ''num_shards'') (kwargs (input (construct g c')))"
    using e by (cases "c_cls c'") (simp_all add: input_construct)
next
  assume "c_cls c = FileReadPipeline \<or> c_cls c = TFRecordPipeline"
  then show "map_of (kwargs (input (construct g c))) ''shard_id'' = None"
    "map_of (kwargs (input (construct g c))) ''num_shards'' = None"
    by (auto simp: input_construct)
next
  assume "c_cls c = MXNetReaderPipeline \<or> c_cls c = CaffeReadPipeline"
  then show "map_of (kwargs (input (construct g c))) ''shard_id'' = Some (PyInt (c_device_id c))"
    "map_of (kwargs (input (construct g c))) ''num_shards'' = Some (PyInt (c_num_gpus c))"
    by (auto simp: input_construct)
qed

theorem pipeline_class_structure_witness:
  "class_base (Reader CaffeReadPipeline) = Some CommonPipeline \<and>
   op_name (input (construct example_globals
     \<lparr> c_cls = CaffeReadPipeline, c_batch_size = 128, c_num_threads = 2,
       c_device_id = 0, c_num_gpus = 8 \<rparr>)) =
   op_name (input (construct example_globals
     \<lparr> c_cls = CaffeReadPipeline, c_batch_size = 128, c_num_threads = 2,
       c_device_id = 5, c_num_gpus = 8 \<rparr>)) \<and>
   map_of (kwargs (input (construct example_globals
     \<lparr> c_cls = CaffeReadPipeline, c_batch_size = 128, c_num_threads = 2,
       c_device_id = 5, c_num_gpus = 8 \<rparr>))) ''shard_id'' = Some (PyInt 5) \<and>
   map_of (kwargs (input (construct example_globals
     \<lparr> c_cls = FileReadPipeline, c_batch_size = 128, c_num_threads = 2,
       c_device_id = 5, c_num_gpus = 8 \<rparr>))) ''shard_id'' = None"
  using pipeline_class_structure
      [of example_globals
          "\<lparr> c_cls = CaffeReadPipeline, c_batch_size = 128, c_num_threads = 2,
             c_device_id = 5, c_num_gpus = 8 \<rparr>"
          "\<lparr> c_cls = CaffeReadPipeline, c_batch_size = 128, c_num_threads = 2,
             c_device_id = 0, c_num_gpus = 8 \<rparr>"]
    pipeline_class_structure
      [of example_globals
          "\<lparr> c_cls = FileReadPipeline, c_batch_size = 128, c_num_threads = 2,
             c_device_id = 5, c_num_gpus = 8 \<rparr>"
          "\<lparr> c_cls = FileReadPipeline, c_batch_size = 128, c_num_threads = 2,
             c_device_id = 5, c_num_gpus = 8 \<rparr>"]
  by simp

subsection \<open>The label assertions\<close>

lemma frac_zero_iff: "(r - of_int \<lfloor>r\<rfloor> = (0::real)) = (r \<in> \<int>)"
  by (metis Ints_of_int eq_iff_diff_eq_0 floor_of_int Ints_cases)

lemma floor_eq_iff_Ints: "(r = real_of_int \<lfloor>r\<rfloor>) = (r \<in> \<int>)"
  using frac_zero_iff [of r] by simp

lemma fmod1_zero: "(fmod1 x = Finite 0) = (case x of Finite r \<Rightarrow> r \<in> \<int> | _ \<Rightarrow> False)"
  by (cases x) (simp_all add: floor_eq_iff_Ints)

lemma check_label_None: "(check_label rng label = None) = labels_valid rng label"
proof (cases rng)
  case (Pair lo hi)
  show ?thesis
  proof (cases label)
    case (IntArray xs)
    then show ?thesis using Pair
      by (auto simp: check_label_def np_all_def list_all_iff)
  next
    case (FloatArray xs)
    have "\<And>x. (fmod1 x = Finite 0 \<and> float_ge x lo \<and> float_le x hi) =
        (case x of Finite r \<Rightarrow> r \<in> \<int> \<and> of_int lo \<le> r \<and> r \<le> of_int hi | _ \<Rightarrow> False)"
      subgoal for x by (cases x) (simp_all add: floor_eq_iff_Ints)
      done
    then show ?thesis using Pair FloatArray
      by (auto simp: check_label_def np_all_def list_all_iff)
  qed
qed

lemma check_labels_None: "(check_labels rng ls = None) = (\<forall>l\<in>set ls. labels_valid rng l)"
  by (induction ls) (auto simp: check_label_None [symmetric] split: option.splits)

lemma check_label_Some: "check_label rng l = Some e \<Longrightarrow> \<exists>a. e = AssertionError a"
  by (auto simp: check_label_def split: if_splits)

lemma check_labels_Some: "check_labels rng ls = Some e \<Longrightarrow> \<exists>a. e = AssertionError a"
  by (induction ls) (auto split: option.splits dest: check_label_Some)

subsection \<open>The shape of a run of the self-test loop\<close>

text \<open>
  The loops are unfolded through the two components of their result. A loop that ends
  without an error went through every check; a loop that ends with an error stopped
  at the first check that failed.
\<close>

lemma run_iterations_Cons:
  "fst (run_iterations ext pt ts (i # is)) =
     (case check_labels (snd (snd pt)) (sess_run ext ts i) of
        Some e \<Rightarrow> Some e
      | None \<Rightarrow> fst (run_iterations ext pt ts is))"
  "snd (run_iterations ext pt ts (i # is)) =
     (case check_labels (snd (snd pt)) (sess_run ext ts i) of
        Some e \<Rightarrow> [SessRun (fst pt) i]
      | None \<Rightarrow> SessRun (fst pt) i # snd (run_iterations ext pt ts is))"
  by (simp_all add: Let_def split: option.splits prod.splits)

declare run_iterations.simps(2) [simp del]
declare run_iterations_Cons [simp]

lemma run_iterations_None:
  "(fst (run_iterations ext pt ts is) = None) =
   (\<forall>i\<in>set is. check_labels (snd (snd pt)) (sess_run ext ts i) = None)"
  by (induction "is") (auto simp: Let_def split: option.splits prod.splits)

lemma run_iterations_trace_None:
  "fst (run_iterations ext pt ts is) = None \<Longrightarrow>
   snd (run_iterations ext pt ts is) = map (SessRun (fst pt)) is"
  by (induction "is") (auto simp: Let_def split: option.splits prod.splits)

lemma run_iterations_Some:
  "fst (run_iterations ext pt ts is) = Some e \<Longrightarrow>
   \<exists>k<length is.
     (\<forall>j<k. check_labels (snd (snd pt)) (sess_run ext ts (is ! j)) = None) \<and>
     check_labels (snd (snd pt)) (sess_run ext ts (is ! k)) = Some e \<and>
     snd (run_iterations ext pt ts is) = map (SessRun (fst pt)) (take (Suc k) is)"
proof (induction "is")
  case Nil
  then show ?case by simp
next
  case (Cons i "is")
  show ?case
  proof (cases "check_labels (snd (snd pt)) (sess_run ext ts i)")
    case (Some e')
    with Cons.prems have "e' = e" by simp
    with Some show ?thesis by (intro exI [of _ 0]) simp
  next
    case None
    with Cons.prems have "fst (run_iterations ext pt ts is) = Some e"
      by simp
    from Cons.IH [OF this] obtain k where k: "k < length is"
      "\<forall>j<k. check_labels (snd (snd pt)) (sess_run ext ts (is ! j)) = None"
      "check_labels (snd (snd pt)) (sess_run ext ts (is ! k)) = Some e"
      "snd (run_iterations ext pt ts is) = map (SessRun (fst pt)) (take (Suc k) is)"
      by blast
    have "\<forall>j<Suc k. check_labels (snd (snd pt)) (sess_run ext ts ((i # is) ! j)) = None"
      using None k(2) by (auto simp: nth_Cons split: nat.splits)
    with k None show ?thesis
      by (intro exI [of _ "Suc k"]) simp
  qed
qed

lemma get_batch_events:
  "fst (get_batch_test_dali g bs pt) = map Construct (pipe_ctor_calls bs pt)"
  by (simp add: get_batch_test_dali_def Let_def split: prod.splits)

lemma test_loop_Cons:
  "fst (test_loop g ext (pt # rest)) =
     (case fst (run_iterations ext pt (snd (snd (get_batch_test_dali g BATCH_SIZE pt)))
                  [0..<nat ITERATIONS]) of
        Some e \<Rightarrow> Some e
      | None \<Rightarrow> fst (test_loop g ext rest))"
  "snd (test_loop g ext (pt # rest)) =
     Print (''RUN: '' @ cls_name (fst pt)) # map Construct (pipe_ctor_calls BATCH_SIZE pt) @
     snd (run_iterations ext pt (snd (snd (get_batch_test_dali g BATCH_SIZE pt)))
            [0..<nat ITERATIONS]) @
     (case fst (run_iterations ext pt (snd (snd (get_batch_test_dali g BATCH_SIZE pt)))
                  [0..<nat ITERATIONS]) of
        Some e \<Rightarrow> []
      | None \<Rightarrow> Print (''OK : '' @ cls_name (fst pt)) # snd (test_loop g ext rest))"
  using get_batch_events [of g BATCH_SIZE pt]
  by (cases "get_batch_test_dali g BATCH_SIZE pt"; simp add: Let_def split: prod.splits option.splits)+

declare test_loop.simps(2) [simp del]
declare test_loop_Cons [simp]

lemma test_loop_None:
  "(fst (test_loop g ext pts) = None) =
   (\<forall>pt\<in>set pts. \<forall>i<nat ITERATIONS.
      check_labels (snd (snd pt)) (returned_labels g ext pt i) = None)"
proof (induction pts)
  case Nil
  then show ?case by simp
next
  case (Cons pt rest)
  let ?r = "run_iterations ext pt (snd (snd (get_batch_test_dali g BATCH_SIZE pt)))
              [0..<nat ITERATIONS]"
  have "(fst (test_loop g ext (pt # rest)) = None) =
        (fst ?r = None \<and> fst (test_loop g ext rest) = None)"
    by (cases "fst ?r") simp_all
  also have "(fst ?r = None) =
        (\<forall>i<nat ITERATIONS. check_labels (snd (snd pt)) (returned_labels g ext pt i) = None)"
    by (auto simp: run_iterations_None returned_labels_def)
  finally show ?case using Cons.IH by simp
qed

lemma test_loop_trace_None:
  "fst (test_loop g ext pts) = None \<Longrightarrow> snd (test_loop g ext pts) = concat (map full_segment pts)"
proof (induction pts)
  case Nil
  then show ?case by simp
next
  case (Cons pt rest)
  let ?r = "run_iterations ext pt (snd (snd (get_batch_test_dali g BATCH_SIZE pt)))
              [0..<nat ITERATIONS]"
  from Cons.prems have r: "fst ?r = None" and t: "fst (test_loop g ext rest) = None"
    by (cases "fst ?r"; simp)+
  show ?case
    using r Cons.IH [OF t]
    by (simp add: run_iterations_trace_None full_segment_def run_segment_def)
qed

lemma test_loop_Some:
  "fst (test_loop g ext pts) = Some e \<Longrightarrow>
   \<exists>j<length pts. \<exists>k<nat ITERATIONS.
     (\<forall>p\<in>set (take j pts). \<forall>i<nat ITERATIONS.
        check_labels (snd (snd p)) (returned_labels g ext p i) = None) \<and>
     (\<forall>i<k. check_labels (snd (snd (pts ! j))) (returned_labels g ext (pts ! j) i) = None) \<and>
     check_labels (snd (snd (pts ! j))) (returned_labels g ext (pts ! j) k) = Some e \<and>
     snd (test_loop g ext pts) = concat (map full_segment (take j pts)) @ run_segment (pts ! j) (Suc k)"
proof (induction pts)
  case Nil
  then show ?case by simp
next
  case (Cons pt rest)
  let ?ts = "snd (snd (get_batch_test_dali g BATCH_SIZE pt))"
  let ?r = "run_iterations ext pt ?ts [0..<nat ITERATIONS]"
  show ?case
  proof (cases "fst ?r")
    case (Some e')
    with Cons.prems have e: "e' = e" by simp
    from run_iterations_Some [OF Some] obtain k where k: "k < nat ITERATIONS"
      "\<forall>j<k. check_labels (snd (snd pt)) (sess_run ext ?ts j) = None"
      "check_labels (snd (snd pt)) (sess_run ext ?ts k) = Some e'"
      "snd ?r = map (SessRun (fst pt)) (take (Suc k) [0..<nat ITERATIONS])"
      by auto
    have t: "take (Suc k) [0..<nat ITERATIONS] = [0..<Suc k]"
      using k(1) by (simp del: upt_Suc)
    show ?thesis
      apply (rule exI [of _ 0], simp)
      apply (rule exI [of _ k])
      using k e Some t by (simp add: returned_labels_def run_segment_def del: upt_Suc)
  next
    case None
    with Cons.prems have "fst (test_loop g ext rest) = Some e" by simp
    from Cons.IH [OF this] obtain j k where jk: "j < length rest" "k < nat ITERATIONS"
      "\<forall>p\<in>set (take j rest). \<forall>i<nat ITERATIONS.
        check_labels (snd (snd p)) (returned_labels g ext p i) = None"
      "\<forall>i<k. check_labels (snd (snd (rest ! j))) (returned_labels g ext (rest ! j) i) = None"
      "check_labels (snd (snd (rest ! j))) (returned_labels g ext (rest ! j) k) = Some e"
      "snd (test_loop g ext rest) = concat (map full_segment (take j rest)) @ run_segment (rest ! j) (Suc k)"
      by blast
    have p: "\<forall>i<nat ITERATIONS. check_labels (snd (snd pt)) (returned_labels g ext pt i) = None"
      using None by (simp add: run_iterations_None returned_labels_def)
    show ?thesis
      apply (rule exI [of _ "Suc j"], simp add: jk(1))
      apply (rule exI [of _ k])
      using jk p None by (simp add: run_iterations_trace_None full_segment_def run_segment_def del: upt_Suc)
  qed
qed

lemma pipe_types_distinct: "distinct (map fst pipe_types)"
  by (simp add: pipe_types_def)

lemma nat_ITERATIONS: "nat ITERATIONS = 32"
  by (simp add: ITERATIONS_def)

lemma same_class:
  "distinct (map fst pts) \<Longrightarrow> p \<in> set pts \<Longrightarrow> q \<in> set pts \<Longrightarrow> fst p = fst q \<Longrightarrow> p = q"
  by (metis eq_key_imp_eq_value prod.collapse)

lemma last_event_unique:
  "A @ [x] = pre @ y # post \<Longrightarrow> y \<notin> set A \<Longrightarrow> post = [] \<and> pre = A \<and> y = x"
proof (cases post rule: rev_cases)
  case Nil
  assume "A @ [x] = pre @ y # post"
  with Nil show ?thesis by simp
next
  case (snoc post' z)
  assume a: "A @ [x] = pre @ y # post" and n: "y \<notin> set A"
  from a snoc have "A @ [x] = (pre @ y # post') @ [z]" by simp
  then have "A = pre @ y # post'" by (simp only: append1_eq_conv)
  with n show ?thesis by simp
qed

lemma SessRun_in_run_segment:
  "(SessRun c i \<in> set (run_segment pt k)) = (c = fst pt \<and> i < k)"
  by (auto simp: run_segment_def)

lemma SessRun_in_full_segment:
  "(SessRun c i \<in> set (full_segment pt)) = (c = fst pt \<and> i < nat ITERATIONS)"
  by (auto simp: full_segment_def SessRun_in_run_segment)

lemma run_segment_Suc: "run_segment pt (Suc k) = run_segment pt k @ [SessRun (fst pt) k]"
  by (simp add: run_segment_def)

lemma test_loop_failed_run:
  assumes d: "distinct (map fst pts)"
    and r: "test_loop g ext pts = (err, tr)"
    and t: "tr = pre @ SessRun (fst pt) i # post"
    and m: "pt \<in> set pts"
    and c: "check_labels (snd (snd pt)) (returned_labels g ext pt i) = Some e"
  shows "err = Some e \<and> post = [] \<and> SessRun (fst pt) i \<notin> set pre"
proof (cases err)
  case None
  with r have n: "fst (test_loop g ext pts) = None" by simp
  have "SessRun (fst pt) i \<in> set tr" using t by simp
  also have "tr = concat (map full_segment pts)"
    using test_loop_trace_None [OF n] r by simp
  finally have "SessRun (fst pt) i \<in> set (concat (map full_segment pts))" .
  then have "i < nat ITERATIONS" by (auto simp: SessRun_in_full_segment)
  with n m c show ?thesis by (simp add: test_loop_None)
next
  case (Some e')
  with r have s: "fst (test_loop g ext pts) = Some e'" by simp
  from test_loop_Some [OF s] obtain j k where jk: "j < length pts" "k < nat ITERATIONS"
    "\<forall>p\<in>set (take j pts). \<forall>i<nat ITERATIONS.
        check_labels (snd (snd p)) (returned_labels g ext p i) = None"
    "\<forall>i<k. check_labels (snd (snd (pts ! j))) (returned_labels g ext (pts ! j) i) = None"
    "check_labels (snd (snd (pts ! j))) (returned_labels g ext (pts ! j) k) = Some e'"
    "snd (test_loop g ext pts) = concat (map full_segment (take j pts)) @ run_segment (pts ! j) (Suc k)"
    by blast
  let ?A = "concat (map full_segment (take j pts)) @ run_segment (pts ! j) k"
  have tr: "?A @ [SessRun (fst (pts ! j)) k] = pre @ SessRun (fst pt) i # post"
    using jk(6) r t by (simp add: run_segment_Suc)
  have pj: "pts ! j \<in> set pts" using jk(1) by simp
  have notin: "SessRun (fst pt) i \<notin> set ?A"
  proof
    assume "SessRun (fst pt) i \<in> set ?A"
    then consider p where "p \<in> set (take j pts)" "fst pt = fst p" "i < nat ITERATIONS"
      | "fst pt = fst (pts ! j)" "i < k"
      by (auto simp: SessRun_in_full_segment SessRun_in_run_segment)
    then show False
    proof cases
      case 1
      then have "p \<in> set pts" by (meson in_set_takeD)
      from same_class [OF d this m] 1(2) have "p = pt" by simp
      with 1 jk(3) c show False by simp
    next
      case 2
      from same_class [OF d pj m] 2(1) have "pts ! j = pt" by simp
      with 2 jk(4) c show False by simp
    qed
  qed
  from last_event_unique [OF tr notin]
  have l: "post = []" "pre = ?A" "SessRun (fst pt) i = SessRun (fst (pts ! j)) k" by simp_all
  then have f: "fst (pts ! j) = fst pt" and ik: "i = k" by simp_all
  from same_class [OF d pj m f] have "pts ! j = pt" .
  with ik jk(5) c Some l notin show ?thesis by simp
qed

lemma before_append:
  assumes x: "\<And>pre post. xs = pre @ b # post \<Longrightarrow> a \<in> set pre"
    and y: "\<And>pre post. ys = pre @ b # post \<Longrightarrow> a \<in> set pre"
    and e: "xs @ ys = pre @ b # post"
  shows "a \<in> set pre"
proof -
  from e obtain us where "(xs = pre @ us \<and> us @ ys = b # post) \<or> (xs @ us = pre \<and> ys = us @ b # post)"
    by (auto simp: append_eq_append_conv2)
  then show ?thesis
  proof
    assume u: "xs = pre @ us \<and> us @ ys = b # post"
    show ?thesis
    proof (cases us)
      case Nil
      with u have "ys = [] @ b # post" by simp
      from y [OF this] show ?thesis by simp
    next
      case (Cons u us')
      with u have "xs = pre @ b # us'" by simp
      from x [OF this] show ?thesis .
    qed
  next
    assume u: "xs @ us = pre \<and> ys = us @ b # post"
    then have "a \<in> set us" using y by blast
    with u show ?thesis by auto
  qed
qed

lemma before_concat:
  assumes "\<And>x pre post. x \<in> set xss \<Longrightarrow> x = pre @ b # post \<Longrightarrow> a \<in> set pre"
    and "concat xss = pre @ b # post"
  shows "a \<in> set pre"
  using assms
proof (induction xss arbitrary: pre post)
  case Nil
  then show ?case by simp
next
  case (Cons xs xss)
  show ?case
  proof (rule before_append [of xs b a "concat xss"])
    show "\<And>pre post. xs = pre @ b # post \<Longrightarrow> a \<in> set pre"
      by (rule Cons.prems(1) [of xs]) simp_all
    show "\<And>pre post. concat xss = pre @ b # post \<Longrightarrow> a \<in> set pre"
    proof (rule Cons.IH)
      show "\<And>x pre post. x \<in> set xss \<Longrightarrow> x = pre @ b # post \<Longrightarrow> a \<in> set pre"
        by (rule Cons.prems(1)) simp_all
    qed
    show "xs @ concat xss = pre @ b # post" using Cons.prems(2) by simp
  qed
qed

lemma RUN_before_run_segment:
  assumes "run_segment pt k = pre @ SessRun c i # post"
  shows "Print (''RUN: '' @ cls_name c) \<in> set pre"
proof -
  have "SessRun c i \<in> set (run_segment pt k)" using assms by simp
  then have c: "c = fst pt" by (simp add: SessRun_in_run_segment)
  from assms obtain pre' where "pre = Print (''RUN: '' @ cls_name (fst pt)) # pre'"
    by (cases pre) (simp_all add: run_segment_def)
  with c show ?thesis by simp
qed

lemma RUN_before_full_segment:
  assumes "full_segment pt = pre @ SessRun c i # post"
  shows "Print (''RUN: '' @ cls_name c) \<in> set pre"
proof (rule before_append [of "run_segment pt (nat ITERATIONS)" _ _
        "[Print (''OK : '' @ cls_name (fst pt))]"])
  show "\<And>pre post. run_segment pt (nat ITERATIONS) = pre @ SessRun c i # post \<Longrightarrow>
          Print (''RUN: '' @ cls_name c) \<in> set pre"
    by (rule RUN_before_run_segment)
  show "\<And>pre post. [Print (''OK : '' @ cls_name (fst pt))] = pre @ SessRun c i # post \<Longrightarrow>
          Print (''RUN: '' @ cls_name c) \<in> set pre"
    by (simp add: Cons_eq_append_conv)
  show "run_segment pt (nat ITERATIONS) @ [Print (''OK : '' @ cls_name (fst pt))] =
          pre @ SessRun c i # post"
    using assms by (simp add: full_segment_def)
qed

lemma test_loop_shape:
  "\<exists>ps rest. snd (test_loop g ext pts) = concat (map full_segment ps) @ rest \<and>
     set ps \<subseteq> set pts \<and>
     (\<forall>p\<in>set ps. \<forall>i<nat ITERATIONS.
        check_labels (snd (snd p)) (returned_labels g ext p i) = None) \<and>
     (rest = [] \<or> (\<exists>pt k. rest = run_segment pt k))"
proof (cases "fst (test_loop g ext pts)")
  case None
  then show ?thesis
    using test_loop_trace_None [OF None] test_loop_None [of g ext pts]
    by (intro exI [of _ pts] exI [of _ "[]"]) simp
next
  case (Some e)
  from test_loop_Some [OF Some] obtain j k where
    "\<forall>p\<in>set (take j pts). \<forall>i<nat ITERATIONS.
        check_labels (snd (snd p)) (returned_labels g ext p i) = None"
    "snd (test_loop g ext pts) = concat (map full_segment (take j pts)) @ run_segment (pts ! j) (Suc k)"
    by blast
  moreover have "set (take j pts) \<subseteq> set pts" by (rule set_take_subset)
  moreover have "\<exists>pt k'. run_segment (pts ! j) (Suc k) = run_segment pt k'" by blast
  ultimately show ?thesis
    by (intro exI [of _ "take j pts"] exI [of _ "run_segment (pts ! j) (Suc k)"]) simp
qed

lemma test_loop_RUN_before:
  assumes "snd (test_loop g ext pts) = pre @ SessRun c i # post"
  shows "Print (''RUN: '' @ cls_name c) \<in> set pre"
proof -
  from test_loop_shape [of g ext pts] obtain ps rest where
    s: "snd (test_loop g ext pts) = concat (map full_segment ps) @ rest"
    and r: "rest = [] \<or> (\<exists>pt k. rest = run_segment pt k)"
    by blast
  show ?thesis
  proof (rule before_append [of "concat (map full_segment ps)" _ _ rest])
    show "\<And>pre post. concat (map full_segment ps) = pre @ SessRun c i # post \<Longrightarrow>
            Print (''RUN: '' @ cls_name c) \<in> set pre"
    proof (rule before_concat [of "map full_segment ps"])
      fix x pre post
      assume "x \<in> set (map full_segment ps)" and x: "x = pre @ SessRun c i # post"
      then obtain p where "full_segment p = x" by auto
      with x have "full_segment p = pre @ SessRun c i # post" by simp
      then show "Print (''RUN: '' @ cls_name c) \<in> set pre"
        by (rule RUN_before_full_segment)
    qed
    show "\<And>pre post. rest = pre @ SessRun c i # post \<Longrightarrow>
            Print (''RUN: '' @ cls_name c) \<in> set pre"
    proof -
      fix pre post
      assume e: "rest = pre @ SessRun c i # post"
      with r obtain pt k where "run_segment pt k = pre @ SessRun c i # post" by auto
      then show "Print (''RUN: '' @ cls_name c) \<in> set pre"
        by (rule RUN_before_run_segment)
    qed
    show "concat (map full_segment ps) @ rest = pre @ SessRun c i # post"
      using s assms by simp
  qed
qed

lemma cls_name_inj: "cls_name c = cls_name c' \<Longrightarrow> c = c'"
  by (cases c; cases c'; simp)

lemma OK_in_run_segment: "Print (''OK : '' @ s) \<notin> set (run_segment pt k)"
  by (auto simp: run_segment_def)

lemma OK_in_run_segment_chars [simp]:
  "Print (CHR ''O'' # CHR ''K'' # CHR '' '' # CHR '':'' # CHR '' '' # s) \<notin> set (run_segment pt k)"
  using OK_in_run_segment [of s pt k] by simp

lemma OK_in_full_segment:
  "(Print (''OK : '' @ cls_name c) \<in> set (full_segment pt)) = (c = fst pt)"
  by (auto simp: full_segment_def OK_in_run_segment dest: cls_name_inj)

lemma OK_in_full_segment_chars [simp]:
  "(Print (CHR ''O'' # CHR ''K'' # CHR '' '' # CHR '':'' # CHR '' '' # cls_name c)
      \<in> set (full_segment pt)) = (c = fst pt)"
  using OK_in_full_segment [of c pt] by simp

lemma runs_before_OK_full_segment:
  assumes "full_segment pt = pre @ Print (''OK : '' @ cls_name c) # post" and "i < nat ITERATIONS"
  shows "SessRun c i \<in> set pre"
proof -
  have "run_segment pt (nat ITERATIONS) @ [Print (''OK : '' @ cls_name (fst pt))] =
          pre @ Print (''OK : '' @ cls_name c) # post"
    using assms(1) by (simp add: full_segment_def)
  from last_event_unique [OF this OK_in_run_segment]
  have "pre = run_segment pt (nat ITERATIONS)" "cls_name c = cls_name (fst pt)" by simp_all
  then show ?thesis using assms(2) by (simp add: SessRun_in_run_segment cls_name_inj)
qed

lemma test_loop_runs_before_OK:
  assumes "snd (test_loop g ext pts) = pre @ Print (''OK : '' @ cls_name c) # post"
    and i: "i < nat ITERATIONS"
  shows "SessRun c i \<in> set pre"
proof -
  from test_loop_shape [of g ext pts] obtain ps rest where
    s: "snd (test_loop g ext pts) = concat (map full_segment ps) @ rest"
    and r: "rest = [] \<or> (\<exists>pt k. rest = run_segment pt k)"
    by blast
  show ?thesis
  proof (rule before_append [of "concat (map full_segment ps)" _ _ rest])
    show "\<And>pre post. concat (map full_segment ps) = pre @ Print (''OK : '' @ cls_name c) # post \<Longrightarrow>
            SessRun c i \<in> set pre"
    proof (rule before_concat [of "map full_segment ps"])
      fix x pre post
      assume "x \<in> set (map full_segment ps)" and x: "x = pre @ Print (''OK : '' @ cls_name c) # post"
      then obtain p where "full_segment p = x" by auto
      with x have "full_segment p = pre @ Print (''OK : '' @ cls_name c) # post" by simp
      then show "SessRun c i \<in> set pre" using i by (rule runs_before_OK_full_segment)
    qed
    show "\<And>pre post. rest = pre @ Print (''OK : '' @ cls_name c) # post \<Longrightarrow> SessRun c i \<in> set pre"
    proof -
      fix pre post
      assume e: "rest = pre @ Print (''OK : '' @ cls_name c) # post"
      with r obtain pt k where "run_segment pt k = pre @ Print (''OK : '' @ cls_name c) # post"
        by auto
      then have "Print (''OK : '' @ cls_name c) \<in> set (run_segment pt k)" by simp
      then show "SessRun c i \<in> set pre" by (simp add: OK_in_run_segment)
    qed
    show "concat (map full_segment ps) @ rest = pre @ Print (''OK : '' @ cls_name c) # post"
      using s assms by simp
  qed
qed

lemma test_loop_OK_passed:
  assumes d: "distinct (map fst pts)"
    and o: "Print (''OK : '' @ cls_name (fst pt)) \<in> set (snd (test_loop g ext pts))"
    and m: "pt \<in> set pts" and i: "i < nat ITERATIONS"
  shows "check_labels (snd (snd pt)) (returned_labels g ext pt i) = None"
proof -
  from test_loop_shape [of g ext pts] obtain ps rest where
    s: "snd (test_loop g ext pts) = concat (map full_segment ps) @ rest"
    and sub: "set ps \<subseteq> set pts"
    and ok: "\<forall>p\<in>set ps. \<forall>i<nat ITERATIONS.
        check_labels (snd (snd p)) (returned_labels g ext p i) = None"
    and r: "rest = [] \<or> (\<exists>pt k. rest = run_segment pt k)"
    by blast
  from r have "Print (''OK : '' @ cls_name (fst pt)) \<notin> set rest"
    by (auto simp: OK_in_run_segment)
  with o s obtain p where p: "p \<in> set ps" "fst pt = fst p"
    by auto
  from p(1) sub have "p \<in> set pts" by blast
  from same_class [OF d this m] p(2) have "p = pt" by simp
  with p ok i show ?thesis by simp
qed

lemma prints_of_append [simp]: "prints_of (xs @ ys) = prints_of xs @ prints_of ys"
  by (induction xs rule: prints_of.induct) simp_all

lemma prints_of_map [simp]:
  "prints_of (map Construct cs) = []" "prints_of (map (SessRun c) is) = []"
  by (induction cs, simp_all) (induction "is", simp_all)

lemma prints_of_segment [simp]:
  "prints_of (run_segment pt k) = [''RUN: '' @ cls_name (fst pt)]"
  "prints_of (full_segment pt) = [''RUN: '' @ cls_name (fst pt), ''OK : '' @ cls_name (fst pt)]"
  by (simp_all add: full_segment_def run_segment_def)

lemma below_4: "(j::nat) < 4 \<Longrightarrow> j = 0 \<or> j = 1 \<or> j = 2 \<or> j = 3"
  by arith

lemma cell18_prints:
  "prefix (prints_of (snd (cell18 g ext)))
     [''RUN: MXNetReaderPipeline'', ''OK : MXNetReaderPipeline'',
      ''RUN: CaffeReadPipeline'', ''OK : CaffeReadPipeline'',
      ''RUN: FileReadPipeline'', ''OK : FileReadPipeline'',
      ''RUN: TFRecordPipeline'', ''OK : TFRecordPipeline'']"
proof (cases "fst (cell18 g ext)")
  case None
  then have "snd (cell18 g ext) = concat (map full_segment pipe_types)"
    using test_loop_trace_None [of g ext pipe_types] by (simp add: cell18_def)
  then show ?thesis by (simp add: pipe_types_def)
next
  case (Some e)
  then have "fst (test_loop g ext pipe_types) = Some e" by (simp add: cell18_def)
  from test_loop_Some [OF this] obtain j k where j: "j < length pipe_types"
    and t: "snd (cell18 g ext) =
           concat (map full_segment (take j pipe_types)) @ run_segment (pipe_types ! j) (Suc k)"
    unfolding cell18_def by blast
  from j have "j = 0 \<or> j = 1 \<or> j = 2 \<or> j = 3"
    by (intro below_4) (simp add: pipe_types_def)
  then consider "j = 0" | "j = 1" | "j = 2" | "j = 3" by blast
  then show ?thesis
  proof cases
    case 1 with t show ?thesis by (simp add: pipe_types_def del: upt_Suc)
  next
    case 2 with t show ?thesis by (simp add: pipe_types_def del: upt_Suc)
  next
    case 3 with t show ?thesis by (simp add: pipe_types_def del: upt_Suc)
  next
    case 4 with t show ?thesis by (simp add: pipe_types_def del: upt_Suc)
  qed
qed

lemma runs_of_append [simp]: "runs_of c (xs @ ys) = runs_of c xs @ runs_of c ys"
  by (induction c xs rule: runs_of.induct) simp_all

lemma runs_of_map [simp]:
  "runs_of c (map Construct cs) = []"
  "runs_of c (map (SessRun c') is) = (if c' = c then is else [])"
  by (induction cs, simp_all) (induction "is", simp_all)

lemma runs_of_segment [simp]:
  "runs_of c (run_segment pt k) = (if fst pt = c then [0..<k] else [])"
  "runs_of c (full_segment pt) = (if fst pt = c then [0..<nat ITERATIONS] else [])"
  by (simp_all add: full_segment_def run_segment_def)

lemma constructs_of_append [simp]:
  "constructs_of (xs @ ys) = constructs_of xs @ constructs_of ys"
  by (induction xs rule: constructs_of.induct) simp_all

lemma constructs_of_map [simp]:
  "constructs_of (map Construct cs) = cs" "constructs_of (map (SessRun c) is) = []"
  by (induction cs, simp_all) (induction "is", simp_all)

lemma constructs_of_segment [simp]:
  "constructs_of (run_segment pt k) = pipe_ctor_calls BATCH_SIZE pt"
  "constructs_of (full_segment pt) = pipe_ctor_calls BATCH_SIZE pt"
  by (simp_all add: full_segment_def run_segment_def)

lemma constructs_of_concat:
  "constructs_of (concat (map full_segment ps)) = concat (map (pipe_ctor_calls BATCH_SIZE) ps)"
  by (induction ps) simp_all

lemma cell18_runs_None:
  assumes "fst (cell18 g ext) = None" and "pt \<in> set pipe_types"
  shows "runs_of (fst pt) (snd (cell18 g ext)) = [0..<32]"
proof -
  have "snd (cell18 g ext) = concat (map full_segment pipe_types)"
    using assms(1) test_loop_trace_None [of g ext pipe_types] by (simp add: cell18_def)
  then show ?thesis
    using assms(2) by (auto simp: pipe_types_def ITERATIONS_def simp del: upt_Suc)
qed

lemma cell18_constructs_None:
  assumes "fst (cell18 g ext) = None"
  shows "constructs_of (snd (cell18 g ext)) = concat (map (pipe_ctor_calls BATCH_SIZE) pipe_types)"
proof -
  have "snd (cell18 g ext) = concat (map full_segment pipe_types)"
    using assms(1) test_loop_trace_None [of g ext pipe_types] by (simp add: cell18_def)
  then show ?thesis by (simp add: constructs_of_concat)
qed

lemma cell18_runs:
  "\<exists>n\<le>32. runs_of c (snd (cell18 g ext)) = [0..<n]"
proof (cases "fst (cell18 g ext)")
  case None
  then have "snd (cell18 g ext) = concat (map full_segment pipe_types)"
    using test_loop_trace_None [of g ext pipe_types] by (simp add: cell18_def)
  then have "runs_of c (snd (cell18 g ext)) = [0..<32]"
    by (cases c) (simp_all add: pipe_types_def ITERATIONS_def del: upt_Suc)
  then show ?thesis by blast
next
  case (Some e)
  then have "fst (test_loop g ext pipe_types) = Some e" by (simp add: cell18_def)
  from test_loop_Some [OF this] obtain j k where j: "j < length pipe_types"
    and k: "k < nat ITERATIONS"
    and t: "snd (cell18 g ext) =
           concat (map full_segment (take j pipe_types)) @ run_segment (pipe_types ! j) (Suc k)"
    unfolding cell18_def by blast
  from j have "j = 0 \<or> j = 1 \<or> j = 2 \<or> j = 3"
    by (intro below_4) (simp add: pipe_types_def)
  then consider "j = 0" | "j = 1" | "j = 2" | "j = 3" by blast
  then have "runs_of c (snd (cell18 g ext)) = [0..<32] \<or>
             runs_of c (snd (cell18 g ext)) = [0..<Suc k] \<or>
             runs_of c (snd (cell18 g ext)) = [0..<0]"
  proof cases
    case 1 with t show ?thesis
      by (cases c) (simp_all add: pipe_types_def ITERATIONS_def del: upt_Suc)
  next
    case 2 with t show ?thesis
      by (cases c) (simp_all add: pipe_types_def ITERATIONS_def del: upt_Suc)
  next
    case 3 with t show ?thesis
      by (cases c) (simp_all add: pipe_types_def ITERATIONS_def del: upt_Suc)
  next
    case 4 with t show ?thesis
      by (cases c) (simp_all add: pipe_types_def ITERATIONS_def del: upt_Suc)
  qed
  moreover have "Suc k \<le> 32" using k by (simp add: ITERATIONS_def)
  ultimately show ?thesis by (metis le_refl zero_le)
qed

lemma py_range_N: "py_range N = [0, 1, 2, 3, 4, 5, 6, 7]"
  by (simp add: py_range_def N_def upt_rec)

lemma pipe_ctor_calls_eq:
  "pipe_ctor_calls bs (c, dt, rng) =
     map (\<lambda>d. \<lparr> c_cls = c, c_batch_size = bs, c_num_threads = 2, c_device_id = d,
                 c_num_gpus = 8 \<rparr>) [0, 1, 2, 3, 4, 5, 6, 7]"
  by (simp add: pipe_ctor_calls_def py_range_N) (simp add: N_def)

lemma get_batch_devices:
  "map (\<lambda>t. case t of DaliOutput call k \<Rightarrow>
               (device_id (dc_pipeline call), cls (dc_pipeline call), dc_device_id call, k))
     (snd (snd (get_batch_test_dali g bs (c, dt, rng)))) =
   map (\<lambda>d. (d, c, d, 1)) [0, 1, 2, 3, 4, 5, 6, 7]"
  by (simp add: get_batch_test_dali_def Let_def pipe_ctor_calls_eq py_range_N common_construct cls_construct)

lemma example_extern_valid:
  "label \<in> set (returned_labels g example_extern pt i) \<Longrightarrow>
   labels_valid (0, 999) label \<and> labels_valid (0, 1) label \<and> labels_valid (1, 1000) label"
  by (auto simp: returned_labels_def sess_run_def example_extern_def)

lemma example_passes: "fst (cell18 g example_extern) = None"
  by (simp add: cell18_def test_loop_None check_labels_None)
     (auto simp: pipe_types_def dest: example_extern_valid)

lemma example_trace: "snd (cell18 g example_extern) = concat (map full_segment pipe_types)"
  using example_passes [of g] test_loop_trace_None [of g example_extern pipe_types]
  by (simp add: cell18_def)

lemma invalid_label_fails:
  assumes "label \<in> set (returned_labels g ext pt i)" and "\<not> labels_valid (snd (snd pt)) label"
  shows "\<exists>a. check_labels (snd (snd pt)) (returned_labels g ext pt i) = Some (AssertionError a)"
proof -
  from assms have "check_labels (snd (snd pt)) (returned_labels g ext pt i) \<noteq> None"
    by (auto simp: check_labels_None)
  then obtain e where e: "check_labels (snd (snd pt)) (returned_labels g ext pt i) = Some e"
    by blast
  with check_labels_Some [OF e] show ?thesis by blast
qed

lemma nonintegral_trace:
  "cell18 example_globals nonintegral_extern =
     (Some (AssertionError Labels_integral),
      (Print ''RUN: MXNetReaderPipeline'' #
       map Construct (pipe_ctor_calls BATCH_SIZE (MXNetReaderPipeline, tf_float32, (0, 999)))) @
      SessRun MXNetReaderPipeline 0 # [])"
proof -
  have c: "check_labels (0, 999)
        (sess_run nonintegral_extern
           (snd (snd (get_batch_test_dali example_globals BATCH_SIZE
                        (MXNetReaderPipeline, tf_float32, (0, 999))))) 0) =
        Some (AssertionError Labels_integral)"
    by (simp add: sess_run_def get_batch_test_dali_def Let_def py_range_N nonintegral_extern_def
          check_label_def np_all_def)
  have u: "[0..<nat ITERATIONS] = 0 # [1..<32]"
    by (simp add: ITERATIONS_def upt_conv_Cons)
  show ?thesis
    by (rule prod_eqI) (simp_all add: cell18_def pipe_types_def u c)
qed

lemma nonintegral_label:
  "FloatArray [Finite (1 / 2)] \<in>
     set (returned_labels example_globals nonintegral_extern
            (MXNetReaderPipeline, tf_float32, (0, 999)) 0) \<and>
   \<not> labels_valid (0, 999) (FloatArray [Finite (1 / 2)])"
proof -
  have "(1 / 2 :: real) \<notin> \<int>"
  proof
    assume "(1 / 2 :: real) \<in> \<int>"
    then obtain n :: int where "(1 / 2 :: real) = of_int n" by (auto elim: Ints_cases)
    then have "(1 :: real) = of_int (2 * n)" by simp
    then have "(1 :: int) = 2 * n" using of_int_eq_iff [where ?'a = real] by (metis of_int_1)
    then show False by presburger
  qed
  then show ?thesis
    by (simp add: returned_labels_def sess_run_def get_batch_test_dali_def Let_def py_range_N
          nonintegral_extern_def)
qed

subsection \<open>The self-test loop\<close>

text \<open>
  Claim C1. The self-test cell ends without an exception exactly when, for each of the
  four pipeline types and each of the 32 runs of its session, every returned label
  array holds only labels that are integral and in the range of the type: 0 to 999 for
  \<open>MXNetReaderPipeline\<close> and \<open>CaffeReadPipeline\<close>, 0 to 1 for \<open>FileReadPipeline\<close>,
  1 to 1000 for \<open>TFRecordPipeline\<close>. Nothing else decides the outcome: an exception of
  the cell is an \<open>AssertionError\<close>, and the three assertions on one array pass exactly
  when the array is valid in this sense.
\<close>

theorem label_checks:
  "ITERATIONS = 32 \<and>
   ((fst (cell18 g ext) = None) =
    ((\<forall>i<32. \<forall>label\<in>set (returned_labels g ext (MXNetReaderPipeline, tf_float32, (0, 999)) i).
        labels_valid (0, 999) label) \<and>
     (\<forall>i<32. \<forall>label\<in>set (returned_labels g ext (CaffeReadPipeline, tf_int32, (0, 999)) i).
        labels_valid (0, 999) label) \<and>
     (\<forall>i<32. \<forall>label\<in>set (returned_labels g ext (FileReadPipeline, tf_int32, (0, 1)) i).
        labels_valid (0, 1) label) \<and>
     (\<forall>i<32. \<forall>label\<in>set (returned_labels g ext (TFRecordPipeline, tf_int64, (1, 1000)) i).
        labels_valid (1, 1000) label))) \<and>
   (\<forall>e. fst (cell18 g ext) = Some e \<longrightarrow> (\<exists>a. e = AssertionError a)) \<and>
   (\<forall>rng label. (check_label rng label = None) = labels_valid rng label)"
proof (intro conjI allI impI)
  show "ITERATIONS = 32" by (simp add: ITERATIONS_def)
next
  show "(fst (cell18 g ext) = None) =
    ((\<forall>i<32. \<forall>label\<in>set (returned_labels g ext (MXNetReaderPipeline, tf_float32, (0, 999)) i).
        labels_valid (0, 999) label) \<and>
     (\<forall>i<32. \<forall>label\<in>set (returned_labels g ext (CaffeReadPipeline, tf_int32, (0, 999)) i).
        labels_valid (0, 999) label) \<and>
     (\<forall>i<32. \<forall>label\<in>set (returned_labels g ext (FileReadPipeline, tf_int32, (0, 1)) i).
        labels_valid (0, 1) label) \<and>
     (\<forall>i<32. \<forall>label\<in>set (returned_labels g ext (TFRecordPipeline, tf_int64, (1, 1000)) i).
        labels_valid (1, 1000) label))"
    by (simp add: cell18_def test_loop_None check_labels_None nat_ITERATIONS)
       (simp add: pipe_types_def)
next
  fix e assume "fst (cell18 g ext) = Some e"
  then have "fst (test_loop g ext pipe_types) = Some e" by (simp add: cell18_def)
  from test_loop_Some [OF this] obtain pt i where
    "check_labels (snd (snd pt)) (returned_labels g ext pt i) = Some e" by blast
  then show "\<exists>a. e = AssertionError a" by (rule check_labels_Some)
next
  fix rng label
  show "(check_label rng label = None) = labels_valid rng label" by (rule check_label_None)
qed

theorem label_checks_witness:
  "fst (cell18 example_globals example_extern) = None"
  using label_checks [of example_globals example_extern]
  by (simp add: example_extern_valid)

text \<open>
  Claim C5. When a batch that the loop pulled holds an invalid label, the cell ends
  with an \<open>AssertionError\<close>, the session run that returned the batch is the last
  event of the cell (no further iteration, no further pipeline type, no \<open>OK\<close> line),
  and that run did not happen before (no retry).
\<close>

theorem failed_assertion_aborts:
  assumes "cell18 g ext = (err, tr)"
    and "tr = pre @ SessRun (fst pt) i # post"
    and "pt \<in> set pipe_types"
    and "label \<in> set (returned_labels g ext pt i)"
    and "\<not> labels_valid (snd (snd pt)) label"
  shows "(\<exists>a. err = Some (AssertionError a)) \<and> post = [] \<and> SessRun (fst pt) i \<notin> set pre"
proof -
  from invalid_label_fails [OF assms(4,5)] obtain a where
    a: "check_labels (snd (snd pt)) (returned_labels g ext pt i) = Some (AssertionError a)"
    by blast
  have "test_loop g ext pipe_types = (err, tr)" using assms(1) by (simp add: cell18_def)
  from test_loop_failed_run [OF pipe_types_distinct this assms(2,3) a]
  show ?thesis by simp
qed

theorem failed_assertion_aborts_witness:
  "fst (cell18 example_globals nonintegral_extern) = Some (AssertionError Labels_integral) \<and>
   last (snd (cell18 example_globals nonintegral_extern)) = SessRun MXNetReaderPipeline 0"
proof -
  let ?pt = "(MXNetReaderPipeline, tf_float32, (0 :: int, 999 :: int))"
  have m: "?pt \<in> set pipe_types" by (simp add: pipe_types_def)
  have t: "snd (cell18 example_globals nonintegral_extern) =
        (Print ''RUN: MXNetReaderPipeline'' # map Construct (pipe_ctor_calls BATCH_SIZE ?pt)) @
        SessRun (fst ?pt) 0 # []"
    by (simp add: nonintegral_trace)
  have p: "cell18 example_globals nonintegral_extern =
        (fst (cell18 example_globals nonintegral_extern),
         snd (cell18 example_globals nonintegral_extern))" by simp
  from failed_assertion_aborts [OF p t m] nonintegral_label
  show ?thesis by (simp add: nonintegral_trace)
qed

text \<open>
  Claim C6. In the events of the self-test cell, every session run of a pipeline type
  has the line \<open>RUN: name\<close> of that type before it; the line \<open>OK : name\<close> of a type
  has all 32 session runs of the type before it, and all their labels are valid; the
  \<open>OK\<close> line of a type with an invalid label in one of its 32 batches is never
  printed; and the printed lines are an initial part of the eight lines in the order
  MXNet, Caffe, file, TFRecord.
\<close>

theorem status_lines:
  assumes "cell18 g ext = (err, tr)"
  shows "(\<forall>c i pre post. tr = pre @ SessRun c i # post \<longrightarrow>
            Print (''RUN: '' @ cls_name c) \<in> set pre) \<and>
         (\<forall>pt pre post. pt \<in> set pipe_types \<and>
              tr = pre @ Print (''OK : '' @ cls_name (fst pt)) # post \<longrightarrow>
            (\<forall>i<32. SessRun (fst pt) i \<in> set pre \<and>
               (\<forall>label\<in>set (returned_labels g ext pt i). labels_valid (snd (snd pt)) label))) \<and>
         (\<forall>pt i label. pt \<in> set pipe_types \<and> i < 32 \<and>
              label \<in> set (returned_labels g ext pt i) \<and> \<not> labels_valid (snd (snd pt)) label \<longrightarrow>
            Print (''OK : '' @ cls_name (fst pt)) \<notin> set tr) \<and>
         prefix (prints_of tr)
           [''RUN: MXNetReaderPipeline'', ''OK : MXNetReaderPipeline'',
            ''RUN: CaffeReadPipeline'', ''OK : CaffeReadPipeline'',
            ''RUN: FileReadPipeline'', ''OK : FileReadPipeline'',
            ''RUN: TFRecordPipeline'', ''OK : TFRecordPipeline'']"
proof -
  have tr: "snd (test_loop g ext pipe_types) = tr" using assms by (simp add: cell18_def)
  have 1: "Print (''RUN: '' @ cls_name c) \<in> set pre"
    if "tr = pre @ SessRun c i # post" for c i pre post
    using that tr by (intro test_loop_RUN_before [of g ext pipe_types pre c i post]) simp
  have ok: "check_labels (snd (snd pt)) (returned_labels g ext pt i) = None"
    if "pt \<in> set pipe_types" "Print (''OK : '' @ cls_name (fst pt)) \<in> set tr" "i < 32"
    for pt i
    using that tr
    by (intro test_loop_OK_passed [OF pipe_types_distinct, of pt g ext i])
       (simp_all add: nat_ITERATIONS)
  have 2: "\<forall>i<32. SessRun (fst pt) i \<in> set pre \<and>
               (\<forall>label\<in>set (returned_labels g ext pt i). labels_valid (snd (snd pt)) label)"
    if "pt \<in> set pipe_types \<and> tr = pre @ Print (''OK : '' @ cls_name (fst pt)) # post"
    for pt pre post
  proof (intro allI impI conjI)
    fix i :: nat assume i: "i < 32"
    from that have e: "snd (test_loop g ext pipe_types) =
        pre @ Print (''OK : '' @ cls_name (fst pt)) # post" using tr by simp
    show "SessRun (fst pt) i \<in> set pre"
      using i by (intro test_loop_runs_before_OK [OF e]) (simp add: nat_ITERATIONS)
    have "Print (''OK : '' @ cls_name (fst pt)) \<in> set tr" using that by simp
    from ok [OF _ this i] that
    show "\<forall>label\<in>set (returned_labels g ext pt i). labels_valid (snd (snd pt)) label"
      by (simp add: check_labels_None)
  qed
  have 3: "Print (''OK : '' @ cls_name (fst pt)) \<notin> set tr"
    if "pt \<in> set pipe_types \<and> i < 32 \<and>
        label \<in> set (returned_labels g ext pt i) \<and> \<not> labels_valid (snd (snd pt)) label"
    for pt i label
  proof
    assume "Print (''OK : '' @ cls_name (fst pt)) \<in> set tr"
    with that ok [of pt i] have "check_labels (snd (snd pt)) (returned_labels g ext pt i) = None"
      by blast
    with that show False by (auto simp: check_labels_None)
  qed
  have 4: "prefix (prints_of tr)
           [''RUN: MXNetReaderPipeline'', ''OK : MXNetReaderPipeline'',
            ''RUN: CaffeReadPipeline'', ''OK : CaffeReadPipeline'',
            ''RUN: FileReadPipeline'', ''OK : FileReadPipeline'',
            ''RUN: TFRecordPipeline'', ''OK : TFRecordPipeline'']"
    using cell18_prints [of g ext] assms by simp
  from 1 2 3 4 show ?thesis by blast
qed

theorem status_lines_witness:
  "(\<exists>pre post. snd (cell18 example_globals example_extern) =
       pre @ SessRun TFRecordPipeline 31 # post \<and>
       Print ''RUN: TFRecordPipeline'' \<in> set pre) \<and>
   (\<exists>pre post. snd (cell18 example_globals example_extern) =
       pre @ Print ''OK : MXNetReaderPipeline'' # post \<and>
       SessRun MXNetReaderPipeline 31 \<in> set pre) \<and>
   Print ''OK : MXNetReaderPipeline'' \<notin> set (snd (cell18 example_globals nonintegral_extern))"
proof -
  let ?tr = "snd (cell18 example_globals example_extern)"
  let ?mx = "(MXNetReaderPipeline, tf_float32, (0 :: int, 999 :: int))"
  have p: "\<And>ext. cell18 example_globals ext =
             (fst (cell18 example_globals ext), snd (cell18 example_globals ext))" by simp
  note good = status_lines [OF p [of example_extern]]
  note bad = status_lines [OF p [of nonintegral_extern]]
  have mx: "?mx \<in> set pipe_types" by (simp add: pipe_types_def)
  have "SessRun TFRecordPipeline 31 \<in> set ?tr"
    by (simp add: example_trace pipe_types_def SessRun_in_full_segment nat_ITERATIONS)
  then obtain pre post where a: "?tr = pre @ SessRun TFRecordPipeline 31 # post"
    by (auto dest: split_list)
  with good [THEN conjunct1, rule_format, OF a]
  have 1: "\<exists>pre post. ?tr = pre @ SessRun TFRecordPipeline 31 # post \<and>
             Print ''RUN: TFRecordPipeline'' \<in> set pre"
    by auto
  have "Print (''OK : '' @ cls_name (fst ?mx)) \<in> set ?tr"
    by (simp add: example_trace pipe_types_def full_segment_def)
  then obtain pre' post' where b: "?tr = pre' @ Print (''OK : '' @ cls_name (fst ?mx)) # post'"
    by (auto dest: split_list)
  from good [THEN conjunct2, THEN conjunct1, rule_format, OF conjI [OF mx b], of 31]
  have "SessRun MXNetReaderPipeline 31 \<in> set pre'" by simp
  with b have 2: "\<exists>pre post. ?tr = pre @ Print ''OK : MXNetReaderPipeline'' # post \<and>
             SessRun MXNetReaderPipeline 31 \<in> set pre"
    by auto
  from bad [THEN conjunct2, THEN conjunct2, THEN conjunct1, rule_format,
        of ?mx 0 "FloatArray [Finite (1 / 2)]"] mx nonintegral_label
  have 3: "Print ''OK : MXNetReaderPipeline'' \<notin> set (snd (cell18 example_globals nonintegral_extern))"
    by simp
  from 1 2 3 show ?thesis by blast
qed

text \<open>
  Claim C7. \<open>N\<close> is 8 and \<open>ITERATIONS\<close> is 32. \<open>get_batch_test_dali\<close> makes eight
  constructor calls, with \<open>device_id\<close> 0 to 7 in this order, each with
  \<open>num_gpus = 8\<close> and two threads, and feeds the pipeline of device \<open>d\<close> to the
  iterator call of device \<open>d\<close>. When the self-test cell ends without an exception,
  each pipeline type had exactly the session runs 0 to 31, every batch was valid, and
  the constructor calls were those of the four types; in every case the session runs
  of a type are \<open>0, .., n - 1\<close> for some \<open>n\<close> of at most 32.
\<close>

theorem one_pipeline_per_device:
  "N = 8 \<and> ITERATIONS = 32 \<and>
   pipe_ctor_calls bs (c, dt, rng) =
     map (\<lambda>d. \<lparr> c_cls = c, c_batch_size = bs, c_num_threads = 2, c_device_id = d,
                 c_num_gpus = 8 \<rparr>) [0, 1, 2, 3, 4, 5, 6, 7] \<and>
   fst (get_batch_test_dali g bs (c, dt, rng)) = map Construct (pipe_ctor_calls bs (c, dt, rng)) \<and>
   map (\<lambda>t. case t of DaliOutput call k \<Rightarrow>
               (device_id (dc_pipeline call), cls (dc_pipeline call), dc_device_id call, k))
     (snd (snd (get_batch_test_dali g bs (c, dt, rng)))) =
     map (\<lambda>d. (d, c, d, 1)) [0, 1, 2, 3, 4, 5, 6, 7] \<and>
   (fst (cell18 g ext) = None \<longrightarrow>
      (\<forall>pt\<in>set pipe_types.
         runs_of (fst pt) (snd (cell18 g ext)) = [0..<32] \<and>
         (\<forall>i<32. \<forall>label\<in>set (returned_labels g ext pt i). labels_valid (snd (snd pt)) label)) \<and>
      constructs_of (snd (cell18 g ext)) = concat (map (pipe_ctor_calls BATCH_SIZE) pipe_types)) \<and>
   (\<forall>c'. \<exists>n\<le>32. runs_of c' (snd (cell18 g ext)) = [0..<n])"
proof (intro conjI impI allI ballI)
  show "N = 8" by (simp add: N_def)
  show "ITERATIONS = 32" by (simp add: ITERATIONS_def)
  show "pipe_ctor_calls bs (c, dt, rng) =
     map (\<lambda>d. \<lparr> c_cls = c, c_batch_size = bs, c_num_threads = 2, c_device_id = d,
                 c_num_gpus = 8 \<rparr>) [0, 1, 2, 3, 4, 5, 6, 7]"
    by (rule pipe_ctor_calls_eq)
  show "fst (get_batch_test_dali g bs (c, dt, rng)) = map Construct (pipe_ctor_calls bs (c, dt, rng))"
    by (rule get_batch_events)
  show "map (\<lambda>t. case t of DaliOutput call k \<Rightarrow>
               (device_id (dc_pipeline call), cls (dc_pipeline call), dc_device_id call, k))
     (snd (snd (get_batch_test_dali g bs (c, dt, rng)))) =
     map (\<lambda>d. (d, c, d, 1)) [0, 1, 2, 3, 4, 5, 6, 7]"
    by (rule get_batch_devices)
next
  fix pt assume n: "fst (cell18 g ext) = None" and m: "pt \<in> set pipe_types"
  show "runs_of (fst pt) (snd (cell18 g ext)) = [0..<32]"
    using n m by (rule cell18_runs_None)
  fix i :: nat and label
  assume "i < 32" "label \<in> set (returned_labels g ext pt i)"
  with n m show "labels_valid (snd (snd pt)) label"
    by (auto simp: cell18_def test_loop_None check_labels_None nat_ITERATIONS)
next
  assume "fst (cell18 g ext) = None"
  then show "constructs_of (snd (cell18 g ext)) =
      concat (map (pipe_ctor_calls BATCH_SIZE) pipe_types)"
    by (rule cell18_constructs_None)
next
  fix c' show "\<exists>n\<le>32. runs_of c' (snd (cell18 g ext)) = [0..<n]" by (rule cell18_runs)
qed

theorem one_pipeline_per_device_witness:
  "runs_of TFRecordPipeline (snd (cell18 example_globals example_extern)) = [0..<32] \<and>
   length (constructs_of (snd (cell18 example_globals example_extern))) = 32"
proof -
  have m: "(TFRecordPipeline, tf_int64, (1, 1000)) \<in> set pipe_types"
    by (simp add: pipe_types_def)
  note w = one_pipeline_per_device [of 128 MXNetReaderPipeline tf_float32 "(0, 999)"
      example_globals example_extern]
  from w have a: "\<forall>pt\<in>set pipe_types.
      runs_of (fst pt) (snd (cell18 example_globals example_extern)) = [0..<32]"
    using example_passes [of example_globals] by blast
  from w have b: "constructs_of (snd (cell18 example_globals example_extern)) =
      concat (map (pipe_ctor_calls BATCH_SIZE) pipe_types)"
    using example_passes [of example_globals] by blast
  from a m have "runs_of TFRecordPipeline (snd (cell18 example_globals example_extern)) = [0..<32]"
    by fastforce
  moreover from b have "length (constructs_of (snd (cell18 example_globals example_extern))) = 32"
    by (simp add: pipe_types_def pipe_ctor_calls_eq)
  ultimately show ?thesis by blast
qed

end
